theory Spec2Isabelle
  imports Complex_Main
begin

section \<open>Python values and failures\<close>

text \<open>
  Every \<^verbatim>\<open>raise\<close> of the handlers is a value: an \<open>HTTPException\<close> carries the status
  code and the detail string of the source; \<open>JWTError\<close> is what \<^verbatim>\<open>jwt.decode\<close> raises;
  \<open>TypeError\<close>, \<open>ValueError\<close>, \<open>AttributeError\<close>, \<open>OverflowError\<close> and passlib's
  \<open>PasswordSizeError\<close> are the exceptions that no handler catches (the framework
  answers them with status 500).
  Python integers are \<open>int\<close>. The \<^verbatim>\<open>Float\<close> columns are \<open>real\<close>: a price stands for the
  number the float denotes, the rounding of float arithmetic is not part of the model,
  nor are infinities and NaN. Text is a list of characters with the code points 0 to
  255, one character per code point.
\<close>

datatype error =
    HTTPException int string
  | JWTError
  | TypeError
  | ValueError
  | AttributeError
  | OverflowError
  | PasswordSizeError

text \<open>Truth value of an \<^verbatim>\<open>Optional[bool]\<close>: \<^verbatim>\<open>None\<close> and \<^verbatim>\<open>False\<close> are falsy.\<close>

definition truthy :: "bool option \<Rightarrow> bool" where
  "truthy b = (b = Some True)"

text \<open>\<^verbatim>\<open>sum(...)\<close> of Python: a left fold that starts at 0.\<close>

definition py_sum :: "real list \<Rightarrow> real" where
  "py_sum xs = foldl (+) 0 xs"

subsection \<open>\<^verbatim>\<open>str(n)\<close> and \<^verbatim>\<open>int(s)\<close>\<close>

definition digit_char :: "nat \<Rightarrow> char" where
  "digit_char d = ''0123456789'' ! d"

definition digit_val :: "char \<Rightarrow> nat option" where
  "digit_val c = (let n = (of_char c :: nat) in if 48 \<le> n \<and> n \<le> 57 then Some (n - 48) else None)"

function str_nat :: "nat \<Rightarrow> string" where
  "str_nat n = (if n < 10 then [digit_char n] else str_nat (n div 10) @ [digit_char (n mod 10)])"
  by pat_completeness auto
termination
  by (relation "measure (\<lambda>n. n)") auto

declare str_nat.simps [simp del]

text \<open>\<^verbatim>\<open>str(user_id)\<close> for a Python integer.\<close>

definition py_str :: "int \<Rightarrow> string" where
  "py_str i = (if i < 0 then CHR ''-'' # str_nat (nat (- i)) else str_nat (nat i))"

text \<open>
  \<^verbatim>\<open>int(s)\<close> in base 10: blanks around the literal are dropped (among the code points up
  to 255 these are 9 to 13, 32, 133 and 160), one sign may lead, single underscores may
  stand between digits, and a literal of more than 4300 digits is refused (the default
  limit of the interpreter). Among the code points up to 255 the decimal digits are
  \<open>0\<close> to \<open>9\<close>.
\<close>

definition is_space :: "char \<Rightarrow> bool" where
  "is_space c = (let n = (of_char c :: nat) in (9 \<le> n \<and> n \<le> 13) \<or> n = 32 \<or> n = 133 \<or> n = 160)"

definition max_str_digits :: nat where
  "max_str_digits = 4300"

definition digit_count :: "string \<Rightarrow> nat" where
  "digit_count s = length (filter (\<lambda>c. digit_val c \<noteq> None) s)"

definition strip :: "string \<Rightarrow> string" where
  "strip s = rev (dropWhile is_space (rev (dropWhile is_space s)))"

fun parse_digits :: "nat \<Rightarrow> string \<Rightarrow> nat option" where
  "parse_digits acc [] = Some acc"
| "parse_digits acc (c # cs) =
     (if c = CHR ''_'' then
        (case cs of
           [] \<Rightarrow> None
         | d # ds \<Rightarrow> (case digit_val d of None \<Rightarrow> None | Some v \<Rightarrow> parse_digits (acc * 10 + v) ds))
      else (case digit_val c of None \<Rightarrow> None | Some v \<Rightarrow> parse_digits (acc * 10 + v) cs))"

definition parse_nat :: "string \<Rightarrow> nat option" where
  "parse_nat s =
     (case s of
        [] \<Rightarrow> None
      | c # cs \<Rightarrow> (case digit_val c of None \<Rightarrow> None | Some v \<Rightarrow> parse_digits v cs))"

definition parse_int :: "string \<Rightarrow> int option" where
  "parse_int s =
     (case strip s of
        [] \<Rightarrow> None
      | c # cs \<Rightarrow>
          if max_str_digits < digit_count (c # cs) then None
          else if c = CHR ''-'' then map_option (\<lambda>n. - int n) (parse_nat cs)
          else if c = CHR ''+'' then map_option int (parse_nat cs)
          else map_option int (parse_nat (c # cs)))"

text \<open>
  The values \<^verbatim>\<open>json.loads\<close> produces: \<^verbatim>\<open>None\<close>, booleans, integers, finite floats, the
  infinities, NaN, text, lists and objects (an object lists its members in the order of
  the document; a repeated key takes its last value).
\<close>

datatype json =
    JNull
  | JBool bool
  | JInt int
  | JFloat real
  | JInf
  | JNaN
  | JStr string
  | JArr "json list"
  | JObj "(string \<times> json) list"

text \<open>
  \<^verbatim>\<open>int(x)\<close> on such a value: a boolean is 0 or 1, a float is cut towards zero, an
  infinity raises OverflowError, NaN and text that is no integer literal raise
  ValueError, \<^verbatim>\<open>None\<close>, lists and objects raise TypeError.
\<close>

fun py_int :: "json \<Rightarrow> error + int" where
  "py_int JNull = Inl TypeError"
| "py_int (JBool b) = Inr (if b then 1 else 0)"
| "py_int (JInt n) = Inr n"
| "py_int (JFloat r) = Inr (if r < 0 then \<lceil>r\<rceil> else \<lfloor>r\<rfloor>)"
| "py_int JInf = Inl OverflowError"
| "py_int JNaN = Inl ValueError"
| "py_int (JStr s) = (case parse_int s of None \<Rightarrow> Inl ValueError | Some n \<Rightarrow> Inr n)"
| "py_int (JArr xs) = Inl TypeError"
| "py_int (JObj kvs) = Inl TypeError"

text \<open>\<^verbatim>\<open>key in claims\<close> and \<^verbatim>\<open>claims[key]\<close> for the members of an object.\<close>

definition claim_of :: "(string \<times> json) list \<Rightarrow> string \<Rightarrow> json option" where
  "claim_of kvs key = map_of (rev kvs) key"

section \<open>The tables (models.py)\<close>

text \<open>
  The password column holds the Argon2 digest that passlib produced. The digest is
  idealised: it records the salt and the text it was computed from, and verification
  succeeds exactly on that text.
\<close>

datatype digest = Argon2 nat string

definition argon2_hash :: "nat \<Rightarrow> string \<Rightarrow> digest" where
  "argon2_hash salt secret = Argon2 salt secret"

fun argon2_verify :: "string \<Rightarrow> digest \<Rightarrow> bool" where
  "argon2_verify secret (Argon2 salt hashed) = (secret = hashed)"

text \<open>
  \<^verbatim>\<open>argon2_context.hash\<close> and \<^verbatim>\<open>argon2_context.verify\<close>: passlib refuses a secret of more than
  4096 characters with PasswordSizeError before it hashes or compares.
\<close>

definition argon2_context_hash :: "nat \<Rightarrow> string \<Rightarrow> error + digest" where
  "argon2_context_hash salt secret =
     (if 4096 < length secret then Inl PasswordSizeError else Inr (argon2_hash salt secret))"

definition argon2_context_verify :: "string \<Rightarrow> digest \<Rightarrow> error + bool" where
  "argon2_context_verify secret hash =
     (if 4096 < length secret then Inl PasswordSizeError else Inr (argon2_verify secret hash))"

text \<open>
  Fields of the three mapped classes, prefixed by the class since the classes share
  attribute names: \<open>u_\<close> for \<^verbatim>\<open>User\<close>, \<open>o_\<close> for \<^verbatim>\<open>Order\<close>, \<open>i_\<close> for \<^verbatim>\<open>OrderItens\<close>.
\<close>

record User =
  u_id :: int
  u_name :: string
  u_email :: string
  u_password :: digest
  u_activated :: "bool option"
  u_admin :: "bool option"

record Order =
  o_id :: int
  o_user :: int
  o_status :: string
  o_price :: real

record OrderItens =
  i_id :: int
  i_quantity :: int
  i_flavor :: string
  i_size :: string
  i_unit_price :: real
  i_order :: int

text \<open>
  The store: the rows of each table in insertion order, as SQLite holds them (the
  engine that models.py names). A session is the store as the request sees it; a
  handler that raises leaves the store as it was (the session is closed without a
  commit). The column \<^verbatim>\<open>size\<close> is a String column: it holds the decimal text of the
  integer the request carries.
\<close>

record db =
  users :: "User list"
  orders :: "Order list"
  order_itens :: "OrderItens list"

definition empty_db :: db where
  "empty_db = \<lparr>users = [], orders = [], order_itens = []\<rparr>"

text \<open>
  An autoincrement primary key: one more than the largest key in the table, 1 in an
  empty table. What the claims use is only that the new key is not in the table.
\<close>

definition next_id :: "int list \<Rightarrow> int" where
  "next_id ids = (if ids = [] then 1 else Max (set ids) + 1)"

text \<open>
  An integer bound to a statement must be in the signed 64-bit range, or the driver
  raises OverflowError before the statement runs.
\<close>

definition fits_integer :: "int \<Rightarrow> bool" where
  "fits_integer n = (- (2 ^ 63) \<le> n \<and> n < 2 ^ 63)"

text \<open>
  \<^verbatim>\<open>session.query(X).filter(X.id == k).first()\<close>: the first row with the key, \<^verbatim>\<open>None\<close> when
  there is none, OverflowError when \<open>k\<close> cannot be bound. Every key the database
  stores is in the 64-bit range, so the refusal stands where the lookup finds no row.
\<close>

definition first_by_id :: "('a \<Rightarrow> int) \<Rightarrow> int \<Rightarrow> 'a list \<Rightarrow> error + 'a option" where
  "first_by_id key k rows =
     (case find (\<lambda>row. key row = k) rows of
        Some row \<Rightarrow> Inr (Some row)
      | None \<Rightarrow> if fits_integer k then Inr None else Inl OverflowError)"

text \<open>
  \<^verbatim>\<open>order.itens\<close>: the relationship is loaded on access, after the pending insert or
  delete of the session has been flushed, so it is the rows of \<^verbatim>\<open>order_itens\<close> whose
  foreign key is the order's id at that moment.
\<close>

definition itens :: "db \<Rightarrow> Order \<Rightarrow> OrderItens list" where
  "itens session order = filter (\<lambda>item. i_order item = o_id order) (order_itens session)"

text \<open>\<^verbatim>\<open>Order.calculate_price\<close>\<close>

definition calculate_price :: "db \<Rightarrow> Order \<Rightarrow> Order" where
  "calculate_price session order =
     order\<lparr>o_price := py_sum (map (\<lambda>item. i_unit_price item * of_int (i_quantity item)) (itens session order))\<rparr>"

text \<open>
  \<^verbatim>\<open>session.commit()\<close> after an attribute of a loaded order was assigned: the unit of work
  emits an UPDATE of that column alone, on the row with the order's key.
\<close>

definition update_price :: "int \<Rightarrow> real \<Rightarrow> db \<Rightarrow> db" where
  "update_price key price session =
     session\<lparr>orders := map (\<lambda>row. if o_id row = key then row\<lparr>o_price := price\<rparr> else row) (orders session)\<rparr>"

definition update_status :: "int \<Rightarrow> string \<Rightarrow> db \<Rightarrow> db" where
  "update_status key status session =
     session\<lparr>orders := map (\<lambda>row. if o_id row = key then row\<lparr>o_status := status\<rparr> else row) (orders session)\<rparr>"

section \<open>Request bodies (schemas.py)\<close>

record UserSchema =
  us_name :: string
  us_email :: string
  us_password :: string
  us_activated :: "bool option"
  us_admin :: "bool option"

record OrderSchema =
  os_user_id :: int

record LoginSchema =
  ls_email :: string
  ls_password :: string

record OrderItemSchema =
  is_quantity :: int
  is_flavor :: string
  is_size :: int
  is_unit_price :: real

section \<open>Tokens (main.py, dependencies.py)\<close>

record config =
  SECRET_KEY :: string
  ALGORITHM :: string
  ACCESS_TOKEN_EXPIRE_MINUTES :: int

text \<open>
  A bearer string is either no JWT at all, or a JWT that records the key and the
  algorithm it was signed with and its payload (signatures are idealised: a token
  verifies under exactly that key and algorithm; the configured algorithm is one the
  library supports). The clock is the number of whole seconds since the epoch.
\<close>

datatype token = Garbage string | JWT string string json

definition jwt_encode :: "json \<Rightarrow> string \<Rightarrow> string \<Rightarrow> token" where
  "jwt_encode dict_info key algorithm = JWT key algorithm dict_info"

text \<open>
  The checks of \<^verbatim>\<open>jwt.decode\<close> on the claims, with its default options and no audience,
  issuer, subject or access token given. Each returns the exception it raises, if any.
  A time claim is read with \<^verbatim>\<open>int\<close>, whose ValueError becomes a JWTError; its other
  exceptions pass through.
\<close>

definition int_claim :: "json \<Rightarrow> error + int" where
  "int_claim v = (case py_int v of Inl ValueError \<Rightarrow> Inl JWTError | Inl e \<Rightarrow> Inl e | Inr n \<Rightarrow> Inr n)"

definition validate_iat :: "(string \<times> json) list \<Rightarrow> error option" where
  "validate_iat claims =
     (case claim_of claims ''iat'' of
        None \<Rightarrow> None
      | Some v \<Rightarrow> (case int_claim v of Inl e \<Rightarrow> Some e | Inr iat \<Rightarrow> None))"

definition validate_nbf :: "int \<Rightarrow> (string \<times> json) list \<Rightarrow> error option" where
  "validate_nbf now claims =
     (case claim_of claims ''nbf'' of
        None \<Rightarrow> None
      | Some v \<Rightarrow>
          (case int_claim v of
             Inl e \<Rightarrow> Some e
           | Inr nbf \<Rightarrow> if now < nbf then Some JWTError else None))"

definition validate_exp :: "int \<Rightarrow> (string \<times> json) list \<Rightarrow> error option" where
  "validate_exp now claims =
     (case claim_of claims ''exp'' of
        None \<Rightarrow> None
      | Some v \<Rightarrow>
          (case int_claim v of
             Inl e \<Rightarrow> Some e
           | Inr e \<Rightarrow> if e < now then Some JWTError else None))"

text \<open>With no audience given, every \<^verbatim>\<open>aud\<close> claim is refused; so is every \<^verbatim>\<open>at_hash\<close> claim.\<close>

definition validate_aud :: "(string \<times> json) list \<Rightarrow> error option" where
  "validate_aud claims = (case claim_of claims ''aud'' of None \<Rightarrow> None | Some v \<Rightarrow> Some JWTError)"

definition validate_sub :: "(string \<times> json) list \<Rightarrow> error option" where
  "validate_sub claims =
     (case claim_of claims ''sub'' of
        None \<Rightarrow> None
      | Some (JStr s) \<Rightarrow> None
      | Some v \<Rightarrow> Some JWTError)"

definition validate_jti :: "(string \<times> json) list \<Rightarrow> error option" where
  "validate_jti claims =
     (case claim_of claims ''jti'' of
        None \<Rightarrow> None
      | Some (JStr s) \<Rightarrow> None
      | Some v \<Rightarrow> Some JWTError)"

definition validate_at_hash :: "(string \<times> json) list \<Rightarrow> error option" where
  "validate_at_hash claims =
     (case claim_of claims ''at_hash'' of None \<Rightarrow> None | Some v \<Rightarrow> Some JWTError)"

text \<open>The checks in the order the library runs them; the first exception wins.\<close>

definition validate_claims :: "int \<Rightarrow> (string \<times> json) list \<Rightarrow> error option" where
  "validate_claims now claims =
     (case find (\<lambda>r. r \<noteq> None)
             [validate_iat claims, validate_nbf now claims, validate_exp now claims,
              validate_aud claims, validate_sub claims, validate_jti claims,
              validate_at_hash claims] of
        None \<Rightarrow> None
      | Some r \<Rightarrow> r)"

text \<open>
  \<^verbatim>\<open>jwt.decode(token, key, algorithms)\<close>: the signature, then the payload, which must be
  an object, then the claims.
\<close>

fun jwt_decode :: "int \<Rightarrow> token \<Rightarrow> string \<Rightarrow> string \<Rightarrow> error + json" where
  "jwt_decode now (Garbage s) key algorithm = Inl JWTError"
| "jwt_decode now (JWT k a payload) key algorithm =
     (if k \<noteq> key \<or> a \<noteq> algorithm then Inl JWTError
      else (case payload of
              JObj claims \<Rightarrow>
                (case validate_claims now claims of None \<Rightarrow> Inr payload | Some e \<Rightarrow> Inl e)
            | other \<Rightarrow> Inl JWTError))"

text \<open>\<^verbatim>\<open>dict_info.get(key)\<close> on the decoded payload: \<^verbatim>\<open>None\<close> when the claim is missing.\<close>

definition dict_get :: "json \<Rightarrow> string \<Rightarrow> json" where
  "dict_get dict_info key =
     (case dict_info of
        JObj claims \<Rightarrow> (case claim_of claims key of None \<Rightarrow> JNull | Some v \<Rightarrow> v)
      | other \<Rightarrow> JNull)"

text \<open>
  \<^verbatim>\<open>oath2_schema\<close>, the \<^verbatim>\<open>OAuth2PasswordBearer\<close> dependency: the bearer string of the
  Authorization header, or 401 when the request carries none.
\<close>

definition oath2_schema :: "token option \<Rightarrow> error + token" where
  "oath2_schema authorization =
     (case authorization of
        None \<Rightarrow> Inl (HTTPException 401 ''Not authenticated'')
      | Some t \<Rightarrow> Inr t)"

text \<open>\<^verbatim>\<open>verify_token\<close> (dependencies.py)\<close>

definition verify_token :: "config \<Rightarrow> int \<Rightarrow> token option \<Rightarrow> db \<Rightarrow> error + User" where
  "verify_token cfg now authorization session =
     (case oath2_schema authorization of
        Inl e \<Rightarrow> Inl e
      | Inr t \<Rightarrow>
         (case jwt_decode now t (SECRET_KEY cfg) (ALGORITHM cfg) of
            Inl JWTError \<Rightarrow> Inl (HTTPException 401 ''Access denied, check token validity'')
          | Inl e \<Rightarrow> Inl e
          | Inr dict_info \<Rightarrow>
             (case py_int (dict_get dict_info ''sub'') of
                Inl e \<Rightarrow> Inl e
              | Inr user_id \<Rightarrow>
                 (case first_by_id u_id user_id (users session) of
                    Inl e \<Rightarrow> Inl e
                  | Inr None \<Rightarrow> Inl (HTTPException 401 ''Invalid access'')
                  | Inr (Some user) \<Rightarrow> Inr user))))"

text \<open>
  \<^verbatim>\<open>get_token\<close> (auth_routers.py); \<open>token_time\<close> is the timedelta in seconds. The default
  of the source is \<open>access_time\<close>.
\<close>

definition get_token :: "config \<Rightarrow> int \<Rightarrow> int \<Rightarrow> int \<Rightarrow> token" where
  "get_token cfg now user_id token_time =
     (let expiration_date_timestamp = now + token_time;
          dict_info = JObj [(''sub'', JStr (py_str user_id)), (''exp'', JInt expiration_date_timestamp)]
      in jwt_encode dict_info (SECRET_KEY cfg) (ALGORITHM cfg))"

definition access_time :: "config \<Rightarrow> int" where
  "access_time cfg = 60 * ACCESS_TOKEN_EXPIRE_MINUTES cfg"

definition refresh_time :: int where
  "refresh_time = 7 * 86400"

section \<open>Responses\<close>

text \<open>
  The JSON objects the handlers return, one constructor per shape: a message; the tokens
  of a login (the refresh token only from \<^verbatim>\<open>/auth/login\<close>); a list of orders; an order with
  its number of items; the id of a created item with the order's price; the remaining
  items with the order; a message with the updated order.
\<close>

datatype response =
    Message string
  | Tokens token "token option"
  | OrdersList "Order list"
  | OrderDetail nat Order
  | ItemCreated int real
  | ItemDeleted "OrderItens list" Order
  | OrderUpdated string Order

definition not_authorized :: error where
  "not_authorized = HTTPException 403 ''You are not authorized to make this request.''"

section \<open>Authentication routes (routers/auth\_routers.py)\<close>

definition home :: "db \<Rightarrow> error + (response \<times> db)" where
  "home session = Inr (Message ''You have accessed the default authentication route'', session)"

text \<open>
  \<^verbatim>\<open>POST /auth/signup\<close>. \<open>current_user\<close> is what the dependency \<^verbatim>\<open>verify_token\<close> returned;
  the body tests it with \<^verbatim>\<open>not current_user\<close>, so it is an option here. \<open>salt\<close> is the
  salt passlib draws for the hash. A \<^verbatim>\<open>None\<close> admin flag is stored as the column default.
\<close>

definition signup :: "UserSchema \<Rightarrow> nat \<Rightarrow> db \<Rightarrow> User option \<Rightarrow> error + (response \<times> db)" where
  "signup user_schema salt session current_user =
     (case find (\<lambda>u. u_email u = us_email user_schema) (users session) of
        Some existing_user \<Rightarrow> Inl (HTTPException 400 ''This user already exists with this email.'')
      | None \<Rightarrow>
         (let admin_user = find (\<lambda>u. u_admin u = Some True) (users session) in
          if (admin_user \<noteq> None \<and> truthy (us_admin user_schema)) \<and>
             (case current_user of None \<Rightarrow> True | Some cu \<Rightarrow> \<not> truthy (u_admin cu))
          then Inl (HTTPException 403 ''Only admins can create new admin users.'')
          else
            (case argon2_context_hash salt (us_password user_schema) of
               Inl e \<Rightarrow> Inl e
             | Inr hash_password \<Rightarrow>
                (let new_user = \<lparr>u_id = next_id (map u_id (users session)),
                                 u_name = us_name user_schema,
                                 u_email = us_email user_schema,
                                 u_password = hash_password,
                                 u_activated = us_activated user_schema,
                                 u_admin = (case us_admin user_schema of None \<Rightarrow> Some False | Some b \<Rightarrow> Some b)\<rparr>
                 in Inr (Message (''User '' @ us_email user_schema @ '' registered successfully.''),
                         session\<lparr>users := users session @ [new_user]\<rparr>)))))"

text \<open>\<^verbatim>\<open>POST /auth/signup_admin\<close> (the second function named \<^verbatim>\<open>signup\<close> in the source).\<close>

definition signup_admin :: "UserSchema \<Rightarrow> nat \<Rightarrow> db \<Rightarrow> error + (response \<times> db)" where
  "signup_admin user_schema salt session =
     (case find (\<lambda>u. u_email u = us_email user_schema) (users session) of
        Some existing_user \<Rightarrow> Inl (HTTPException 400 ''This user already exists with this email.'')
      | None \<Rightarrow>
         (case argon2_context_hash salt (take 72 (us_password user_schema)) of
            Inl e \<Rightarrow> Inl e
          | Inr hash_password \<Rightarrow>
             (let new_user = \<lparr>u_id = next_id (map u_id (users session)),
                              u_name = us_name user_schema,
                              u_email = us_email user_schema,
                              u_password = hash_password,
                              u_activated = us_activated user_schema,
                              u_admin = (case us_admin user_schema of None \<Rightarrow> Some False | Some b \<Rightarrow> Some b)\<rparr>
              in Inr (Message (''User '' @ us_email user_schema @ '' registered successfully.''),
                      session\<lparr>users := users session @ [new_user]\<rparr>))))"

text \<open>
  \<^verbatim>\<open>authenticate_user\<close>: \<^verbatim>\<open>False\<close> of the source is \<open>None\<close>; the exception of
  \<^verbatim>\<open>argon2_context.verify\<close> passes through.
\<close>

definition authenticate_user :: "string \<Rightarrow> string \<Rightarrow> db \<Rightarrow> error + User option" where
  "authenticate_user email password session =
     (case find (\<lambda>u. u_email u = email) (users session) of
        None \<Rightarrow> Inr None
      | Some user \<Rightarrow>
         (case argon2_context_verify password (u_password user) of
            Inl e \<Rightarrow> Inl e
          | Inr verified \<Rightarrow> if \<not> verified then Inr None else Inr (Some user)))"

definition login :: "config \<Rightarrow> int \<Rightarrow> LoginSchema \<Rightarrow> db \<Rightarrow> error + (response \<times> db)" where
  "login cfg now login_schema session =
     (case authenticate_user (ls_email login_schema) (ls_password login_schema) session of
        Inl e \<Rightarrow> Inl e
      | Inr None \<Rightarrow> Inl (HTTPException 400 ''User not found or invalid password.'')
      | Inr (Some user) \<Rightarrow>
         (let access_token = get_token cfg now (u_id user) (access_time cfg);
              refresh_token = get_token cfg now (u_id user) refresh_time
          in Inr (Tokens access_token (Some refresh_token), session)))"

definition login_form :: "config \<Rightarrow> int \<Rightarrow> string \<Rightarrow> string \<Rightarrow> db \<Rightarrow> error + (response \<times> db)" where
  "login_form cfg now username password session =
     (case authenticate_user username password session of
        Inl e \<Rightarrow> Inl e
      | Inr None \<Rightarrow> Inl (HTTPException 400 ''User not found or invalid password.'')
      | Inr (Some user) \<Rightarrow>
         (let access_token = get_token cfg now (u_id user) (access_time cfg)
          in Inr (Tokens access_token None, session)))"

definition user_refresh_token :: "config \<Rightarrow> int \<Rightarrow> User \<Rightarrow> db \<Rightarrow> error + (response \<times> db)" where
  "user_refresh_token cfg now user session =
     (let access_token = get_token cfg now (u_id user) (access_time cfg)
      in Inr (Tokens access_token None, session))"

section \<open>Order routes (routers/order\_routers.py)\<close>

text \<open>
  Each definition is the body of the handler, with the user that \<^verbatim>\<open>verify_token\<close>
  resolved. \<open>orders_route\<close> and \<open>order_route\<close> are the handlers \<^verbatim>\<open>orders\<close> and \<^verbatim>\<open>order\<close>
  of the source (the plain names are the table and the row here).
\<close>

definition orders_route :: "db \<Rightarrow> error + (response \<times> db)" where
  "orders_route session = Inr (Message ''You have accessed the order route'', session)"

definition order_route :: "OrderSchema \<Rightarrow> User \<Rightarrow> db \<Rightarrow> error + (response \<times> db)" where
  "order_route order_schema user session =
     (if \<not> truthy (u_admin user) \<and> u_id user \<noteq> os_user_id order_schema then Inl not_authorized
      else if \<not> fits_integer (os_user_id order_schema) then Inl OverflowError
      else
        (let new_order = \<lparr>o_id = next_id (map o_id (orders session)),
                           o_user = os_user_id order_schema,
                           o_status = ''pending'',
                           o_price = 0\<rparr>
         in Inr (Message (''Order created successfully. Order ID: '' @ py_str (o_id new_order)),
                 session\<lparr>orders := orders session @ [new_order]\<rparr>)))"

definition list_orders :: "User \<Rightarrow> db \<Rightarrow> error + (response \<times> db)" where
  "list_orders user session =
     (if \<not> truthy (u_admin user) then Inl not_authorized
      else (let orders_list = orders session in Inr (OrdersList orders_list, session)))"

definition list_user_orders :: "int \<Rightarrow> User \<Rightarrow> db \<Rightarrow> error + (response \<times> db)" where
  "list_user_orders user_id user session =
     (if \<not> truthy (u_admin user) \<and> u_id user \<noteq> user_id then Inl not_authorized
      else if \<not> fits_integer user_id then Inl OverflowError
      else (let user_orders_list = filter (\<lambda>row. o_user row = user_id) (orders session)
            in Inr (OrdersList user_orders_list, session)))"

definition get_order :: "int \<Rightarrow> User \<Rightarrow> db \<Rightarrow> error + (response \<times> db)" where
  "get_order order_id user session =
     (case first_by_id o_id order_id (orders session) of
        Inl e \<Rightarrow> Inl e
      | Inr None \<Rightarrow> Inl (HTTPException 400 ''Order not found.'')
      | Inr (Some order) \<Rightarrow>
         if \<not> truthy (u_admin user) \<and> u_id user \<noteq> o_user order then Inl not_authorized
         else Inr (OrderDetail (length (itens session order)) order, session))"

text \<open>
  \<^verbatim>\<open>add_iten_order\<close>: \<^verbatim>\<open>session.add\<close> makes the item pending; \<^verbatim>\<open>calculate_price\<close> reads
  \<^verbatim>\<open>order.itens\<close>, which flushes the insert first; the commit writes the order back. The
  insert binds the quantity and the size: when one of them is outside the 64-bit range
  the flush raises OverflowError and nothing is stored.
\<close>

definition add_iten_order :: "int \<Rightarrow> OrderItemSchema \<Rightarrow> User \<Rightarrow> db \<Rightarrow> error + (response \<times> db)" where
  "add_iten_order order_id order_item_schema user session =
     (case first_by_id o_id order_id (orders session) of
        Inl e \<Rightarrow> Inl e
      | Inr None \<Rightarrow> Inl (HTTPException 400 ''Order not found.'')
      | Inr (Some order) \<Rightarrow>
         if \<not> truthy (u_admin user) \<and> u_id user \<noteq> o_user order then Inl not_authorized
         else if \<not> (fits_integer (is_quantity order_item_schema) \<and>
                     fits_integer (is_size order_item_schema)) then Inl OverflowError
         else
           (let order_item = \<lparr>i_id = next_id (map i_id (order_itens session)),
                               i_quantity = is_quantity order_item_schema,
                               i_flavor = is_flavor order_item_schema,
                               i_size = py_str (is_size order_item_schema),
                               i_unit_price = is_unit_price order_item_schema,
                               i_order = order_id\<rparr>;
                flushed = session\<lparr>order_itens := order_itens session @ [order_item]\<rparr>;
                priced = calculate_price flushed order
            in Inr (ItemCreated (i_id order_item) (o_price priced),
                    update_price (o_id priced) (o_price priced) flushed)))"

text \<open>
  \<^verbatim>\<open>remove_iten_order\<close>: when the item's order is not in the store, \<^verbatim>\<open>order\<close> is \<^verbatim>\<open>None\<close> and
  the first attribute access on it raises AttributeError (for an admin at
  \<^verbatim>\<open>order.calculate_price()\<close>, for anyone else at \<^verbatim>\<open>order.user\<close>), before any commit.
  \<^verbatim>\<open>session.delete\<close> removes the row with the item's key.
\<close>

definition remove_iten_order :: "int \<Rightarrow> User \<Rightarrow> db \<Rightarrow> error + (response \<times> db)" where
  "remove_iten_order order_item_id user session =
     (case first_by_id i_id order_item_id (order_itens session) of
        Inl e \<Rightarrow> Inl e
      | Inr None \<Rightarrow> Inl (HTTPException 400 ''Item not found.'')
      | Inr (Some order_item) \<Rightarrow>
         (case find (\<lambda>row. o_id row = i_order order_item) (orders session) of
            None \<Rightarrow> Inl AttributeError
          | Some order \<Rightarrow>
             if \<not> truthy (u_admin user) \<and> u_id user \<noteq> o_user order then Inl not_authorized
             else
               (let flushed = session\<lparr>order_itens :=
                                filter (\<lambda>item. i_id item \<noteq> i_id order_item) (order_itens session)\<rparr>;
                    priced = calculate_price flushed order;
                    committed = update_price (o_id priced) (o_price priced) flushed
                in Inr (ItemDeleted (itens committed priced) priced, committed))))"

definition cancel_order :: "int \<Rightarrow> User \<Rightarrow> db \<Rightarrow> error + (response \<times> db)" where
  "cancel_order order_id user session =
     (case first_by_id o_id order_id (orders session) of
        Inl e \<Rightarrow> Inl e
      | Inr None \<Rightarrow> Inl (HTTPException 400 ''Order not found.'')
      | Inr (Some order) \<Rightarrow>
         if \<not> truthy (u_admin user) \<and> u_id user \<noteq> o_user order then Inl not_authorized
         else
           (let updated = order\<lparr>o_status := ''canceled''\<rparr>
            in Inr (OrderUpdated (''Order '' @ py_str (o_id updated) @ '' canceled successfully.'') updated,
                    update_status (o_id updated) (o_status updated) session)))"

definition complete_order :: "int \<Rightarrow> User \<Rightarrow> db \<Rightarrow> error + (response \<times> db)" where
  "complete_order order_id user session =
     (case first_by_id o_id order_id (orders session) of
        Inl e \<Rightarrow> Inl e
      | Inr None \<Rightarrow> Inl (HTTPException 400 ''Order not found.'')
      | Inr (Some order) \<Rightarrow>
         if \<not> truthy (u_admin user) \<and> u_id user \<noteq> o_user order then Inl not_authorized
         else
           (let updated = order\<lparr>o_status := ''completed''\<rparr>
            in Inr (OrderUpdated (''Order '' @ py_str (o_id updated) @ '' completed successfully.'') updated,
                    update_status (o_id updated) (o_status updated) session)))"

section \<open>The application: routes with their dependencies\<close>

text \<open>
  A request names the route and carries its path parameters and body. The bearer token
  of the request and the clock are arguments of \<open>route\<close>. Every route of
  \<^verbatim>\<open>order_router\<close> and the routes \<^verbatim>\<open>/auth/signup\<close> and \<^verbatim>\<open>/auth/refresh\<close> declare
  \<^verbatim>\<open>Depends(verify_token)\<close>: the dependency runs first, and the body runs only with the
  user it returned.
\<close>

datatype request =
    Home
  | Signup UserSchema nat
  | SignupAdmin UserSchema nat
  | Login LoginSchema
  | LoginForm string string
  | Refresh
  | Orders
  | CreateOrder OrderSchema
  | ListOrders
  | ListUserOrders int
  | GetOrder int
  | AddItem int OrderItemSchema
  | RemoveItem int
  | CancelOrder int
  | CompleteOrder int

definition depends_verify_token ::
  "config \<Rightarrow> int \<Rightarrow> token option \<Rightarrow> db \<Rightarrow> (User \<Rightarrow> error + (response \<times> db)) \<Rightarrow> error + (response \<times> db)" where
  "depends_verify_token cfg now authorization session body =
     (case verify_token cfg now authorization session of
        Inl e \<Rightarrow> Inl e
      | Inr user \<Rightarrow> body user)"

fun route :: "config \<Rightarrow> int \<Rightarrow> token option \<Rightarrow> request \<Rightarrow> db \<Rightarrow> error + (response \<times> db)" where
  "route cfg now a Home s = home s"
| "route cfg now a (Signup user_schema salt) s =
     depends_verify_token cfg now a s (\<lambda>user. signup user_schema salt s (Some user))"
| "route cfg now a (SignupAdmin user_schema salt) s = signup_admin user_schema salt s"
| "route cfg now a (Login login_schema) s = login cfg now login_schema s"
| "route cfg now a (LoginForm username password) s = login_form cfg now username password s"
| "route cfg now a Refresh s = depends_verify_token cfg now a s (\<lambda>user. user_refresh_token cfg now user s)"
| "route cfg now a Orders s = depends_verify_token cfg now a s (\<lambda>user. orders_route s)"
| "route cfg now a (CreateOrder order_schema) s =
     depends_verify_token cfg now a s (\<lambda>user. order_route order_schema user s)"
| "route cfg now a ListOrders s = depends_verify_token cfg now a s (\<lambda>user. list_orders user s)"
| "route cfg now a (ListUserOrders user_id) s =
     depends_verify_token cfg now a s (\<lambda>user. list_user_orders user_id user s)"
| "route cfg now a (GetOrder order_id) s =
     depends_verify_token cfg now a s (\<lambda>user. get_order order_id user s)"
| "route cfg now a (AddItem order_id order_item_schema) s =
     depends_verify_token cfg now a s (\<lambda>user. add_iten_order order_id order_item_schema user s)"
| "route cfg now a (RemoveItem order_item_id) s =
     depends_verify_token cfg now a s (\<lambda>user. remove_iten_order order_item_id user s)"
| "route cfg now a (CancelOrder order_id) s =
     depends_verify_token cfg now a s (\<lambda>user. cancel_order order_id user s)"
| "route cfg now a (CompleteOrder order_id) s =
     depends_verify_token cfg now a s (\<lambda>user. complete_order order_id user s)"

text \<open>The requests served by \<^verbatim>\<open>order_router\<close>.\<close>

fun order_request :: "request \<Rightarrow> bool" where
  "order_request Home = False"
| "order_request (Signup user_schema salt) = False"
| "order_request (SignupAdmin user_schema salt) = False"
| "order_request (Login login_schema) = False"
| "order_request (LoginForm username password) = False"
| "order_request Refresh = False"
| "order_request r = True"

text \<open>
  The store after a request: the one the handler committed, or the old one when the
  request failed.
\<close>

definition store_after :: "config \<Rightarrow> int \<Rightarrow> token option \<Rightarrow> request \<Rightarrow> db \<Rightarrow> db" where
  "store_after cfg now a req s = (case route cfg now a req s of Inl e \<Rightarrow> s | Inr (r, s') \<Rightarrow> s')"

text \<open>The stores the application can be in: it starts empty and serves requests.\<close>

inductive reachable :: "config \<Rightarrow> db \<Rightarrow> bool" for cfg :: config where
  reachable_empty: "reachable cfg empty_db"
| reachable_request: "reachable cfg s \<Longrightarrow> reachable cfg (store_after cfg now a req s)"

section \<open>The price of an order, as specified\<close>

text \<open>
  The sum over the order's current items of quantity times unit price: the value the
  specification gives for \<^verbatim>\<open>Order.price\<close>.
\<close>

definition items_total :: "db \<Rightarrow> int \<Rightarrow> real" where
  "items_total s key =
     sum_list (map (\<lambda>item. of_int (i_quantity item) * i_unit_price item)
                   (filter (\<lambda>item. i_order item = key) (order_itens s)))"

text \<open>
  What holds of every store the application reaches: item keys are unique, every item
  belongs to a stored order, and every order's price is the total of its items.
\<close>

definition store_ok :: "db \<Rightarrow> bool" where
  "store_ok s =
     (distinct (map i_id (order_itens s)) \<and>
      list_all (\<lambda>item. i_order item \<in> set (map o_id (orders s))) (order_itens s) \<and>
      list_all (\<lambda>row. o_price row = items_total s (o_id row)) (orders s))"

section \<open>Outcomes\<close>

text \<open>
  A request succeeded; and a signup registered its user: it succeeded, one row was
  appended to \<^verbatim>\<open>users\<close> with the email of the request and an admin flag as truthy as the
  request's, and the other tables are as before.
\<close>

definition succeeds :: "error + (response \<times> db) \<Rightarrow> bool" where
  "succeeds res = (case res of Inl e \<Rightarrow> False | Inr x \<Rightarrow> True)"

definition registered :: "UserSchema \<Rightarrow> db \<Rightarrow> error + (response \<times> db) \<Rightarrow> bool" where
  "registered user_schema s res =
     (case res of
        Inl e \<Rightarrow> False
      | Inr (r, s') \<Rightarrow>
          users s' \<noteq> [] \<and> butlast (users s') = users s \<and>
          u_email (last (users s')) = us_email user_schema \<and>
          truthy (u_admin (last (users s'))) = truthy (us_admin user_schema) \<and>
          orders s' = orders s \<and> order_itens s' = order_itens s)"

text \<open>
  Bearer tokens that do not authenticate: none at all, a string that is no JWT, a JWT
  signed with another key or algorithm, and, among the JWTs whose payload has the form
  \<^verbatim>\<open>get_token\<close> writes (a text \<^verbatim>\<open>sub\<close> and an integer \<^verbatim>\<open>exp\<close>), an expired one and one
  whose subject reads as an integer of the column's range that is no stored user's id.
\<close>

fun unauthenticated :: "config \<Rightarrow> int \<Rightarrow> db \<Rightarrow> token option \<Rightarrow> bool" where
  "unauthenticated cfg now s None = True"
| "unauthenticated cfg now s (Some (Garbage g)) = True"
| "unauthenticated cfg now s (Some (JWT k al (JObj [(ks, JStr sub), (ke, JInt e)]))) =
     (k \<noteq> SECRET_KEY cfg \<or> al \<noteq> ALGORITHM cfg \<or>
      (ks = ''sub'' \<and> ke = ''exp'' \<and>
       (e < now \<or>
        (case parse_int sub of
           None \<Rightarrow> False
         | Some n \<Rightarrow> fits_integer n \<and> find (\<lambda>u. u_id u = n) (users s) = None))))"
| "unauthenticated cfg now s (Some (JWT k al payload)) =
     (k \<noteq> SECRET_KEY cfg \<or> al \<noteq> ALGORITHM cfg)"

section \<open>A sample store\<close>

text \<open>
  Concrete data on which the theorems below are instantiated: a configuration, an
  administrator and two customers, and one pending order of the first customer with one
  item.
\<close>

definition cfg0 :: config where
  "cfg0 = \<lparr>SECRET_KEY = ''s3cret'', ALGORITHM = ''HS256'', ACCESS_TOKEN_EXPIRE_MINUTES = 30\<rparr>"

definition zoe_schema :: UserSchema where
  "zoe_schema = \<lparr>us_name = ''zoe'', us_email = ''zoe@shop'', us_password = ''pw-zoe'',
                   us_activated = Some True, us_admin = Some True\<rparr>"

definition ann_schema :: UserSchema where
  "ann_schema = \<lparr>us_name = ''ann'', us_email = ''ann@shop'', us_password = ''pw-ann'',
                  us_activated = Some True, us_admin = None\<rparr>"

definition bob_schema :: UserSchema where
  "bob_schema = \<lparr>us_name = ''bob'', us_email = ''bob@shop'', us_password = ''pw-bob'',
                  us_activated = None, us_admin = Some False\<rparr>"

definition eve_schema :: UserSchema where
  "eve_schema = \<lparr>us_name = ''eve'', us_email = ''eve@shop'', us_password = ''pw-eve'',
                  us_activated = Some True, us_admin = Some True\<rparr>"

definition dan_schema :: UserSchema where
  "dan_schema = \<lparr>us_name = ''dan'', us_email = ''dan@shop'', us_password = ''pw-dan'',
                  us_activated = Some True, us_admin = None\<rparr>"

text \<open>Two passwords of 77 characters that differ only after the 72nd.\<close>

definition long_one :: string where
  "long_one = replicate 72 (CHR ''a'') @ ''-left''"

definition long_two :: string where
  "long_two = replicate 72 (CHR ''a'') @ ''right''"

definition zoe :: User where
  "zoe = \<lparr>u_id = 1, u_name = ''zoe'', u_email = ''zoe@shop'', u_password = Argon2 11 ''pw-zoe'',
            u_activated = Some True, u_admin = Some True\<rparr>"

definition ann :: User where
  "ann = \<lparr>u_id = 2, u_name = ''ann'', u_email = ''ann@shop'', u_password = Argon2 12 ''pw-ann'',
           u_activated = Some True, u_admin = Some False\<rparr>"

definition bob :: User where
  "bob = \<lparr>u_id = 3, u_name = ''bob'', u_email = ''bob@shop'', u_password = Argon2 13 ''pw-bob'',
           u_activated = None, u_admin = Some False\<rparr>"

definition margherita :: OrderItemSchema where
  "margherita = \<lparr>is_quantity = 3, is_flavor = ''margherita'', is_size = 30, is_unit_price = 2.5\<rparr>"

definition calabresa :: OrderItemSchema where
  "calabresa = \<lparr>is_quantity = 1, is_flavor = ''calabresa'', is_size = 35, is_unit_price = 10\<rparr>"

definition ann_order :: Order where
  "ann_order = \<lparr>o_id = 1, o_user = 2, o_status = ''pending'', o_price = 7.5\<rparr>"

definition ann_item :: OrderItens where
  "ann_item = \<lparr>i_id = 1, i_quantity = 3, i_flavor = ''margherita'', i_size = ''30'',
                i_unit_price = 2.5, i_order = 1\<rparr>"

definition second_item :: OrderItens where
  "second_item = \<lparr>i_id = 2, i_quantity = 1, i_flavor = ''calabresa'', i_size = ''35'',
                   i_unit_price = 10, i_order = 1\<rparr>"

definition customers :: db where
  "customers = \<lparr>users = [ann, bob], orders = [], order_itens = []\<rparr>"

definition people :: db where
  "people = \<lparr>users = [zoe, ann, bob], orders = [], order_itens = []\<rparr>"

definition shop :: db where
  "shop = \<lparr>users = [zoe, ann, bob], orders = [ann_order], order_itens = [ann_item]\<rparr>"

text \<open>
  The sample store after a second item was added to the order, and after the first item
  was then removed.
\<close>

definition shop_two :: db where
  "shop_two = \<lparr>users = [zoe, ann, bob], orders = [ann_order\<lparr>o_price := 17.5\<rparr>],
                order_itens = [ann_item, second_item]\<rparr>"

definition shop_one :: db where
  "shop_one = \<lparr>users = [zoe, ann, bob], orders = [ann_order\<lparr>o_price := 10\<rparr>],
                order_itens = [second_item]\<rparr>"

text \<open>The bearer tokens a login at time 1000 hands to each of the three users.\<close>

definition zoe_token :: token where
  "zoe_token = get_token cfg0 1000 1 (access_time cfg0)"

definition ann_token :: token where
  "ann_token = get_token cfg0 1000 2 (access_time cfg0)"

definition ann_refresh :: token where
  "ann_refresh = get_token cfg0 1000 2 refresh_time"

definition ann_login :: LoginSchema where
  "ann_login = \<lparr>ls_email = ''ann@shop'', ls_password = ''pw-ann''\<rparr>"

definition bob_token :: token where
  "bob_token = get_token cfg0 1000 3 (access_time cfg0)"

lemmas sample_defs =
  cfg0_def zoe_schema_def ann_schema_def bob_schema_def eve_schema_def dan_schema_def
  customers_def zoe_def ann_def bob_def margherita_def
  calabresa_def ann_order_def ann_item_def second_item_def people_def shop_def shop_two_def
  shop_one_def zoe_token_def ann_token_def bob_token_def

section \<open>Decimal text of integers\<close>

lemma digit_cases: "d < 10 \<Longrightarrow> d \<in> {0, 1, 2, 3, 4, 5, 6, 7, 8, 9::nat}"
  by auto

lemma digit_val_digit_char: "d < 10 \<Longrightarrow> digit_val (digit_char d) = Some d"
  using digit_cases [of d] by (auto simp: digit_val_def digit_char_def)

lemma digit_char_not_underscore: "d < 10 \<Longrightarrow> digit_char d \<noteq> CHR ''_''"
  using digit_cases [of d] by (auto simp: digit_char_def)

lemma digit_char_not_space: "d < 10 \<Longrightarrow> \<not> is_space (digit_char d)"
  using digit_cases [of d] by (auto simp: digit_char_def is_space_def)

lemma digit_char_not_sign: "d < 10 \<Longrightarrow> digit_char d \<noteq> CHR ''-'' \<and> digit_char d \<noteq> CHR ''+''"
  using digit_cases [of d] by (auto simp: digit_char_def)

lemma parse_digits_all:
  "list_all (\<lambda>c. \<exists>d<10. c = digit_char d) s \<Longrightarrow>
   parse_digits acc s = Some (foldl (\<lambda>a c. a * 10 + the (digit_val c)) acc s)"
proof (induction s arbitrary: acc)
  case Nil
  then show ?case by simp
next
  case (Cons c cs)
  then obtain d where d: "d < 10" "c = digit_char d" by auto
  with Cons show ?case
    by (simp add: digit_val_digit_char digit_char_not_underscore)
qed

lemma str_nat_digits: "list_all (\<lambda>c. \<exists>d<10. c = digit_char d) (str_nat n)"
proof (induction n rule: str_nat.induct)
  case (1 n)
  show ?case
  proof (cases "n < 10")
    case True
    then show ?thesis by (subst str_nat.simps) auto
  next
    case False
    with 1 have "list_all (\<lambda>c. \<exists>d<10. c = digit_char d) (str_nat (n div 10))" by simp
    moreover have "n mod 10 < 10" by simp
    ultimately show ?thesis using False
      by (subst str_nat.simps) (auto intro!: exI [of _ "n mod 10"])
  qed
qed

lemma str_nat_value: "foldl (\<lambda>a c. a * 10 + the (digit_val c)) 0 (str_nat n) = n"
proof (induction n rule: str_nat.induct)
  case (1 n)
  show ?case
  proof (cases "n < 10")
    case True
    then show ?thesis by (subst str_nat.simps) (simp add: digit_val_digit_char)
  next
    case False
    with 1 have "foldl (\<lambda>a c. a * 10 + the (digit_val c)) 0 (str_nat (n div 10)) = n div 10" by simp
    then show ?thesis using False
      by (subst str_nat.simps) (simp add: digit_val_digit_char)
  qed
qed

lemma str_nat_nonempty: "str_nat n \<noteq> []"
  by (subst str_nat.simps) simp

lemma parse_nat_str_nat: "parse_nat (str_nat n) = Some n"
proof -
  obtain c cs where cs: "str_nat n = c # cs"
    using str_nat_nonempty [of n] by (cases "str_nat n") auto
  have all: "list_all (\<lambda>c. \<exists>d<10. c = digit_char d) (c # cs)"
    using str_nat_digits [of n] cs by simp
  then obtain d where d: "d < 10" "c = digit_char d" by auto
  have "parse_digits 0 (c # cs) = Some (foldl (\<lambda>a c. a * 10 + the (digit_val c)) 0 (c # cs))"
    using parse_digits_all [OF all] .
  then have "parse_digits 0 (c # cs) = Some n" using str_nat_value [of n] cs by simp
  then show ?thesis using d cs
    by (simp add: parse_nat_def digit_val_digit_char digit_char_not_underscore)
qed

lemma strip_id: "s \<noteq> [] \<Longrightarrow> \<not> is_space (hd s) \<Longrightarrow> \<not> is_space (last s) \<Longrightarrow> strip s = s"
proof -
  assume s: "s \<noteq> []" and h: "\<not> is_space (hd s)" and l: "\<not> is_space (last s)"
  from s h have a: "dropWhile is_space s = s" by (simp add: dropWhile_eq_self_iff)
  from s l have b: "dropWhile is_space (rev s) = rev s" by (simp add: dropWhile_eq_self_iff hd_rev)
  show ?thesis by (simp add: strip_def a b)
qed

lemma hd_str_nat: "\<exists>d<10. hd (str_nat n) = digit_char d"
  using str_nat_digits [of n] str_nat_nonempty [of n] by (cases "str_nat n") auto

lemma last_str_nat: "\<exists>d<10. last (str_nat n) = digit_char d"
proof -
  have "last (str_nat n) \<in> set (str_nat n)" using str_nat_nonempty [of n] by simp
  then show ?thesis using str_nat_digits [of n] by (simp add: list_all_iff)
qed

lemma str_nat_no_space: "\<not> is_space (hd (str_nat n)) \<and> \<not> is_space (last (str_nat n))"
  using hd_str_nat [of n] last_str_nat [of n] digit_char_not_space by metis

lemma digit_count_le: "digit_count s \<le> length s"
  by (simp add: digit_count_def)

lemma length_str_nat: "0 < k \<Longrightarrow> n < 10 ^ k \<Longrightarrow> length (str_nat n) \<le> k"
proof (induction n arbitrary: k rule: str_nat.induct)
  case (1 n)
  show ?case
  proof (cases "n < 10")
    case True
    then show ?thesis using 1(2) by (subst str_nat.simps) simp
  next
    case False
    with 1(3) have k: "1 < k" by (cases "k = 1") (use 1(2) in auto)
    then obtain j where j: "k = Suc j" "0 < j" by (cases k) auto
    have "n div 10 < 10 ^ j" using 1(3) j by (simp add: less_mult_imp_div_less mult.commute)
    with 1(1) [OF False j(2)] have "length (str_nat (n div 10)) \<le> j" .
    then show ?thesis using False j by (subst str_nat.simps) simp
  qed
qed

lemma digit_val_minus: "digit_val (CHR ''-'') = None"
  by (simp add: digit_val_def)

text \<open>The decimal text of a key of the column's range has at most 19 digits.\<close>

lemma digit_count_py_str: "fits_integer i \<Longrightarrow> digit_count (py_str i) \<le> max_str_digits"
proof -
  assume "fits_integer i"
  then have "\<bar>i\<bar> < 10 ^ 19" by (simp add: fits_integer_def abs_if)
  then have "nat \<bar>i\<bar> < 10 ^ 19" by (simp add: nat_less_iff)
  then have l: "length (str_nat (nat \<bar>i\<bar>)) \<le> 19" by (intro length_str_nat) simp_all
  have "digit_count (py_str i) \<le> length (str_nat (nat \<bar>i\<bar>))"
  proof (cases "i < 0")
    case True
    then have "nat (- i) = nat \<bar>i\<bar>" by simp
    with True show ?thesis
      using digit_count_le [of "str_nat (nat \<bar>i\<bar>)"]
      by (simp add: py_str_def digit_count_def digit_val_minus)
  next
    case False
    then have "nat i = nat \<bar>i\<bar>" by simp
    with False show ?thesis
      using digit_count_le [of "str_nat (nat \<bar>i\<bar>)"] by (simp add: py_str_def)
  qed
  with l show ?thesis by (simp add: max_str_digits_def)
qed

lemma parse_int_py_str: "fits_integer i \<Longrightarrow> parse_int (py_str i) = Some i"
proof (cases "i < 0")
  case True
  assume fits: "fits_integer i"
  have "\<not> is_space (CHR ''-'')" by (simp add: is_space_def)
  then have "strip (CHR ''-'' # str_nat (nat (- i))) = CHR ''-'' # str_nat (nat (- i))"
    using str_nat_no_space [of "nat (- i)"] str_nat_nonempty [of "nat (- i)"]
    by (intro strip_id) simp_all
  with True digit_count_py_str [OF fits] show ?thesis
    by (simp add: parse_int_def py_str_def parse_nat_str_nat)
next
  case False
  assume fits: "fits_integer i"
  obtain c cs where cs: "str_nat (nat i) = c # cs"
    using str_nat_nonempty [of "nat i"] by (cases "str_nat (nat i)") auto
  obtain d where d: "d < 10" "c = digit_char d" using hd_str_nat [of "nat i"] cs by auto
  have "strip (str_nat (nat i)) = str_nat (nat i)"
    using str_nat_no_space [of "nat i"] str_nat_nonempty [of "nat i"]
    by (intro strip_id) simp_all
  moreover have "parse_nat (c # cs) = Some (nat i)" using parse_nat_str_nat [of "nat i"] cs by simp
  ultimately show ?thesis using False cs d digit_char_not_sign [of d] digit_count_py_str [OF fits]
    by (simp add: parse_int_def py_str_def)
qed

text \<open>\<^verbatim>\<open>int(str(n)) == n\<close>: the subject of an issued token reads back as the user id.\<close>

lemma py_int_py_str: "fits_integer i \<Longrightarrow> py_int (JStr (py_str i)) = Inr i"
  by (simp add: parse_int_py_str)

section \<open>Lookups by key\<close>

lemma first_by_id_found:
  "find (\<lambda>row. key row = k) rows = Some row \<Longrightarrow> first_by_id key k rows = Inr (Some row)"
  by (simp add: first_by_id_def)

lemma first_by_id_Some:
  "(first_by_id key k rows = Inr (Some row)) = (find (\<lambda>row. key row = k) rows = Some row)"
  by (auto simp: first_by_id_def split: option.splits)

lemma first_by_id_None:
  "(first_by_id key k rows = Inr None) = (find (\<lambda>row. key row = k) rows = None \<and> fits_integer k)"
  by (auto simp: first_by_id_def split: option.splits)

section \<open>The token dependency\<close>

lemma depends_ok:
  "verify_token cfg now a s = Inr user \<Longrightarrow> depends_verify_token cfg now a s body = body user"
  by (simp add: depends_verify_token_def)

lemma depends_fail:
  "verify_token cfg now a s = Inl e \<Longrightarrow> depends_verify_token cfg now a s body = Inl e"
  by (simp add: depends_verify_token_def)

lemma issued_claims:
  "now \<le> e \<Longrightarrow> validate_claims now [(''sub'', JStr sub), (''exp'', JInt e)] = None"
  by (simp add: validate_claims_def validate_iat_def validate_nbf_def validate_exp_def
        validate_aud_def validate_sub_def validate_jti_def validate_at_hash_def claim_of_def
        int_claim_def)

text \<open>
  A token whose payload has the two claims \<^verbatim>\<open>get_token\<close> writes resolves to the user
  its subject names, until it expires.
\<close>

lemma verify_token_sub_exp:
  assumes "find (\<lambda>u. u_id u = n) (users s) = Some user" and "parse_int sub = Some n" and "now \<le> e"
  shows "verify_token cfg now
           (Some (JWT (SECRET_KEY cfg) (ALGORITHM cfg) (JObj [(''sub'', JStr sub), (''exp'', JInt e)]))) s
         = Inr user"
  using assms
  by (simp add: verify_token_def oath2_schema_def issued_claims dict_get_def claim_of_def
        first_by_id_found)

lemma verify_token_issued:
  "find (\<lambda>u. u_id u = uid) (users s) = Some user \<Longrightarrow> fits_integer uid \<Longrightarrow> now \<le> t0 + life \<Longrightarrow>
   verify_token cfg now (Some (get_token cfg t0 uid life)) s = Inr user"
  unfolding get_token_def jwt_encode_def Let_def
  by (rule verify_token_sub_exp) (simp_all add: parse_int_py_str)

lemma shop_zoe: "verify_token cfg0 1200 (Some zoe_token) shop = Inr zoe"
  unfolding zoe_token_def
  by (rule verify_token_issued) (simp_all add: sample_defs access_time_def fits_integer_def)

lemma shop_ann: "verify_token cfg0 1200 (Some ann_token) shop = Inr ann"
  unfolding ann_token_def
  by (rule verify_token_issued) (simp_all add: sample_defs access_time_def fits_integer_def)


section \<open>Prices\<close>

lemma foldl_plus_sum_list: "foldl (+) a xs = a + sum_list (xs :: real list)"
  by (induction xs arbitrary: a) simp_all

lemma py_sum_sum_list: "py_sum xs = sum_list xs"
  by (simp add: py_sum_def foldl_plus_sum_list)

lemma calculate_price_total: "o_price (calculate_price s order) = items_total s (o_id order)"
  by (simp add: calculate_price_def itens_def items_total_def py_sum_sum_list mult.commute)

lemma calculate_price_id: "o_id (calculate_price s order) = o_id order"
  by (simp add: calculate_price_def)

lemma items_total_update_price [simp]: "items_total (update_price k p s) key = items_total s key"
  by (simp add: items_total_def update_price_def)

lemma items_total_update_status [simp]: "items_total (update_status k st s) key = items_total s key"
  by (simp add: items_total_def update_status_def)

lemma items_total_users [simp]: "items_total (s\<lparr>users := us\<rparr>) key = items_total s key"
  by (simp add: items_total_def)

lemma items_total_orders [simp]: "items_total (s\<lparr>orders := os\<rparr>) key = items_total s key"
  by (simp add: items_total_def)

lemma items_total_other:
  "i_order item \<noteq> key \<Longrightarrow>
   items_total (s\<lparr>order_itens := order_itens s @ [item]\<rparr>) key = items_total s key"
  by (simp add: items_total_def)

lemma next_id_fresh: "next_id ids \<notin> set ids"
proof
  assume a: "next_id ids \<in> set ids"
  then have "ids \<noteq> []" by auto
  moreover from a have "next_id ids \<le> Max (set ids)" by simp
  ultimately show False by (simp add: next_id_def)
qed

lemma find_in_set: "find P xs = Some x \<Longrightarrow> x \<in> set xs \<and> P x"
  by (auto simp: find_Some_iff)

lemma unique_key:
  "distinct (map f xs) \<Longrightarrow> x \<in> set xs \<Longrightarrow> y \<in> set xs \<Longrightarrow> f x = f y \<Longrightarrow> x = y"
  by (auto simp: distinct_map dest: inj_onD)

lemma items_total_removed:
  assumes d: "distinct (map i_id (order_itens s))"
    and x: "x \<in> set (order_itens s)" and k: "i_order x \<noteq> key"
  shows "items_total (s\<lparr>order_itens := filter (\<lambda>item. i_id item \<noteq> i_id x) (order_itens s)\<rparr>) key
         = items_total s key"
proof -
  have "filter (\<lambda>item. i_order item = key) (filter (\<lambda>item. i_id item \<noteq> i_id x) (order_itens s))
        = filter (\<lambda>item. i_order item = key) (order_itens s)"
    unfolding filter_filter
  proof (rule filter_cong [OF refl])
    fix y assume y: "y \<in> set (order_itens s)"
    show "(i_id y \<noteq> i_id x \<and> i_order y = key) = (i_order y = key)"
      using unique_key [OF d y x] k by auto
  qed
  then show ?thesis by (simp add: items_total_def)
qed

lemma ids_update_price: "o_id ` set (orders (update_price k p s)) = o_id ` set (orders s)"
proof -
  have "map o_id (orders (update_price k p s)) = map o_id (orders s)"
    by (simp add: update_price_def o_def)
  then have "set (map o_id (orders (update_price k p s))) = set (map o_id (orders s))" by simp
  then show ?thesis by simp
qed

section \<open>The invariant\<close>

lemma store_okI:
  "distinct (map i_id (order_itens s)) \<Longrightarrow>
   (\<And>item. item \<in> set (order_itens s) \<Longrightarrow> i_order item \<in> o_id ` set (orders s)) \<Longrightarrow>
   (\<And>row. row \<in> set (orders s) \<Longrightarrow> o_price row = items_total s (o_id row)) \<Longrightarrow>
   store_ok s"
  by (simp add: store_ok_def list_all_iff)

lemma store_ok_distinct: "store_ok s \<Longrightarrow> distinct (map i_id (order_itens s))"
  by (simp add: store_ok_def)

lemma store_ok_owner:
  "store_ok s \<Longrightarrow> item \<in> set (order_itens s) \<Longrightarrow> i_order item \<in> o_id ` set (orders s)"
  by (simp add: store_ok_def list_all_iff)

lemma store_ok_price:
  "store_ok s \<Longrightarrow> row \<in> set (orders s) \<Longrightarrow> o_price row = items_total s (o_id row)"
  by (simp add: store_ok_def list_all_iff)

lemma store_ok_empty: "store_ok empty_db"
  by (simp add: store_ok_def empty_db_def)

lemma store_ok_users: "store_ok s \<Longrightarrow> store_ok (s\<lparr>users := us\<rparr>)"
  by (simp add: store_ok_def)

lemma store_ok_update_status: "store_ok s \<Longrightarrow> store_ok (update_status k st s)"
  unfolding store_ok_def
  by (auto simp: update_status_def list_all_iff items_total_def o_def image_iff)

lemma store_ok_order_route:
  assumes ok: "store_ok s" and "order_route order_schema user s = Inr (r, s')"
  shows "store_ok s'"
proof -
  let ?k = "next_id (map o_id (orders s))"
  let ?new = "\<lparr>o_id = ?k, o_user = os_user_id order_schema, o_status = ''pending'', o_price = 0\<rparr>"
  from assms(2) have s': "s' = s\<lparr>orders := orders s @ [?new]\<rparr>"
    by (auto simp: order_route_def Let_def split: if_splits)
  have fresh: "?k \<notin> o_id ` set (orders s)" using next_id_fresh [of "map o_id (orders s)"] by simp
  have "\<And>item. item \<in> set (order_itens s) \<Longrightarrow> i_order item \<noteq> ?k"
    using store_ok_owner [OF ok] fresh by metis
  then have "filter (\<lambda>item. i_order item = ?k) (order_itens s) = []"
    by (simp add: filter_empty_conv)
  then have zero: "items_total s ?k = 0" by (simp add: items_total_def)
  show ?thesis
  proof (rule store_okI)
    show "distinct (map i_id (order_itens s'))" using store_ok_distinct [OF ok] by (simp add: s')
  next
    fix item assume "item \<in> set (order_itens s')"
    then show "i_order item \<in> o_id ` set (orders s')"
      using store_ok_owner [OF ok, of item] by (auto simp: s')
  next
    fix row assume "row \<in> set (orders s')"
    then show "o_price row = items_total s' (o_id row)"
      using store_ok_price [OF ok, of row] zero by (auto simp: s')
  qed
qed

lemma add_iten_order_store:
  assumes add: "add_iten_order order_id p user s = Inr (r, s')"
  defines "item \<equiv> \<lparr>i_id = next_id (map i_id (order_itens s)), i_quantity = is_quantity p,
                   i_flavor = is_flavor p, i_size = py_str (is_size p), i_unit_price = is_unit_price p,
                   i_order = order_id\<rparr>"
  defines "flushed \<equiv> s\<lparr>order_itens := order_itens s @ [item]\<rparr>"
  shows "s' = update_price order_id (items_total flushed order_id) flushed"
    and "r = ItemCreated (i_id item) (items_total flushed order_id)"
    and "order_id \<in> o_id ` set (orders s)"
proof -
  from add obtain order where f: "find (\<lambda>row. o_id row = order_id) (orders s) = Some order"
    by (auto simp: add_iten_order_def first_by_id_def split: option.splits if_splits)
  then have oid: "o_id order = order_id" and mem: "order \<in> set (orders s)"
    using find_in_set [OF f] by simp_all
  from add f show "s' = update_price order_id (items_total flushed order_id) flushed"
    and "r = ItemCreated (i_id item) (items_total flushed order_id)"
    by (auto simp: add_iten_order_def first_by_id_def Let_def calculate_price_total
                   calculate_price_id oid item_def flushed_def split: if_splits)
  from oid mem show "order_id \<in> o_id ` set (orders s)" by auto
qed

lemma store_ok_add:
  assumes ok: "store_ok s" and add: "add_iten_order order_id p user s = Inr (r, s')"
  shows "store_ok s'"
proof -
  define item where "item = \<lparr>i_id = next_id (map i_id (order_itens s)), i_quantity = is_quantity p,
                   i_flavor = is_flavor p, i_size = py_str (is_size p), i_unit_price = is_unit_price p,
                   i_order = order_id\<rparr>"
  have item: "i_id item = next_id (map i_id (order_itens s))" "i_order item = order_id"
    by (simp_all add: item_def)
  have s': "s' = update_price order_id
                (items_total (s\<lparr>order_itens := order_itens s @ [item]\<rparr>) order_id)
                (s\<lparr>order_itens := order_itens s @ [item]\<rparr>)"
    using add_iten_order_store(1) [OF add] by (simp add: item_def)
  have mem: "order_id \<in> o_id ` set (orders s)" by (rule add_iten_order_store(3) [OF add])
  have fresh: "i_id item \<notin> set (map i_id (order_itens s))"
    unfolding item by (rule next_id_fresh)
  have items': "order_itens s' = order_itens s @ [item]" by (simp add: s' update_price_def)
  have ids: "o_id ` set (orders s') = o_id ` set (orders s)"
    by (simp add: s' ids_update_price)
  show ?thesis
  proof (rule store_okI)
    show "distinct (map i_id (order_itens s'))"
      using store_ok_distinct [OF ok] fresh by (simp add: items')
  next
    fix x assume "x \<in> set (order_itens s')"
    then show "i_order x \<in> o_id ` set (orders s')"
      unfolding ids items' using store_ok_owner [OF ok, of x] mem item by auto
  next
    fix row assume "row \<in> set (orders s')"
    then obtain old where old: "old \<in> set (orders s)"
      and row: "row = (if o_id old = order_id
                       then old\<lparr>o_price := items_total (s\<lparr>order_itens := order_itens s @ [item]\<rparr>) order_id\<rparr>
                       else old)"
      by (auto simp: s' update_price_def)
    show "o_price row = items_total s' (o_id row)"
    proof (cases "o_id old = order_id")
      case True
      then show ?thesis by (simp add: row s')
    next
      case False
      then have "items_total s' (o_id old) = items_total s (o_id old)"
        using item by (simp add: s' items_total_other)
      then show ?thesis using False store_ok_price [OF ok old] by (simp add: row)
    qed
  qed
qed

lemma remove_iten_order_store:
  assumes rm: "remove_iten_order order_item_id user s = Inr (r, s')"
  shows "\<exists>x. find (\<lambda>item. i_id item = order_item_id) (order_itens s) = Some x \<and>
             i_order x \<in> o_id ` set (orders s) \<and>
             s' = update_price (i_order x)
                    (items_total (s\<lparr>order_itens := filter (\<lambda>item. i_id item \<noteq> order_item_id) (order_itens s)\<rparr>) (i_order x))
                    (s\<lparr>order_itens := filter (\<lambda>item. i_id item \<noteq> order_item_id) (order_itens s)\<rparr>)"
proof -
  from rm obtain x where x: "find (\<lambda>item. i_id item = order_item_id) (order_itens s) = Some x"
    by (auto simp: remove_iten_order_def first_by_id_def split: option.splits if_splits)
  with rm obtain order where f: "find (\<lambda>row. o_id row = i_order x) (orders s) = Some order"
    by (auto simp: remove_iten_order_def first_by_id_def split: option.splits)
  have xid: "i_id x = order_item_id" using find_in_set [OF x] by simp
  have oid: "o_id order = i_order x" and mem: "order \<in> set (orders s)"
    using find_in_set [OF f] by simp_all
  from rm x f have "s' = update_price (i_order x)
                    (items_total (s\<lparr>order_itens := filter (\<lambda>item. i_id item \<noteq> order_item_id) (order_itens s)\<rparr>) (i_order x))
                    (s\<lparr>order_itens := filter (\<lambda>item. i_id item \<noteq> order_item_id) (order_itens s)\<rparr>)"
    by (auto simp: remove_iten_order_def first_by_id_def Let_def calculate_price_total
             calculate_price_id oid xid split: if_splits)
  moreover from oid mem have "i_order x \<in> o_id ` set (orders s)" by force
  ultimately show ?thesis using x by simp
qed

lemma store_ok_remove:
  assumes ok: "store_ok s" and rm: "remove_iten_order order_item_id user s = Inr (r, s')"
  shows "store_ok s'"
proof -
  let ?fl = "s\<lparr>order_itens := filter (\<lambda>item. i_id item \<noteq> order_item_id) (order_itens s)\<rparr>"
  from remove_iten_order_store [OF rm] obtain x where
    x: "find (\<lambda>item. i_id item = order_item_id) (order_itens s) = Some x" and
    s': "s' = update_price (i_order x) (items_total ?fl (i_order x)) ?fl"
    by auto
  have xid: "i_id x = order_item_id" and xmem: "x \<in> set (order_itens s)"
    using find_in_set [OF x] by simp_all
  have items': "order_itens s' = filter (\<lambda>item. i_id item \<noteq> order_item_id) (order_itens s)"
    by (simp add: s' update_price_def)
  have ids: "o_id ` set (orders s') = o_id ` set (orders s)"
    by (simp add: s' ids_update_price)
  show ?thesis
  proof (rule store_okI)
    show "distinct (map i_id (order_itens s'))"
      using store_ok_distinct [OF ok] by (simp add: items' distinct_map_filter)
  next
    fix y assume "y \<in> set (order_itens s')"
    then show "i_order y \<in> o_id ` set (orders s')"
      unfolding ids items' using store_ok_owner [OF ok, of y] by auto
  next
    fix row assume "row \<in> set (orders s')"
    then obtain old where old: "old \<in> set (orders s)"
      and row: "row = (if o_id old = i_order x
                       then old\<lparr>o_price := items_total ?fl (i_order x)\<rparr> else old)"
      by (auto simp: s' update_price_def)
    show "o_price row = items_total s' (o_id row)"
    proof (cases "o_id old = i_order x")
      case True
      then show ?thesis by (simp add: row s')
    next
      case False
      then have "items_total ?fl (o_id old) = items_total s (o_id old)"
        using items_total_removed [OF store_ok_distinct [OF ok] xmem, of "o_id old"] xid by auto
      then show ?thesis using False store_ok_price [OF ok old] by (simp add: row s')
    qed
  qed
qed

lemma store_ok_cancel:
  "store_ok s \<Longrightarrow> cancel_order order_id user s = Inr (r, s') \<Longrightarrow> store_ok s'"
  by (auto simp: cancel_order_def first_by_id_def Let_def store_ok_update_status
           split: option.splits if_splits)

lemma store_ok_complete:
  "store_ok s \<Longrightarrow> complete_order order_id user s = Inr (r, s') \<Longrightarrow> store_ok s'"
  by (auto simp: complete_order_def first_by_id_def Let_def store_ok_update_status
           split: option.splits if_splits)

lemma store_ok_signup:
  "store_ok s \<Longrightarrow> signup user_schema salt s cu = Inr (r, s') \<Longrightarrow> store_ok s'"
  by (auto simp: signup_def Let_def store_ok_users split: option.splits if_splits sum.splits)

lemma store_ok_signup_admin:
  "store_ok s \<Longrightarrow> signup_admin user_schema salt s = Inr (r, s') \<Longrightarrow> store_ok s'"
  by (auto simp: signup_admin_def Let_def store_ok_users split: option.splits if_splits sum.splits)

text \<open>The handlers that only read.\<close>

lemma read_only:
  "home s = Inr (r, s') \<Longrightarrow> s' = s"
  "login cfg now login_schema s = Inr (r, s') \<Longrightarrow> s' = s"
  "login_form cfg now username password s = Inr (r, s') \<Longrightarrow> s' = s"
  "user_refresh_token cfg now user s = Inr (r, s') \<Longrightarrow> s' = s"
  "orders_route s = Inr (r, s') \<Longrightarrow> s' = s"
  "list_orders user s = Inr (r, s') \<Longrightarrow> s' = s"
  "list_user_orders user_id user s = Inr (r, s') \<Longrightarrow> s' = s"
  "get_order order_id user s = Inr (r, s') \<Longrightarrow> s' = s"
  by (auto simp: home_def login_def login_form_def user_refresh_token_def orders_route_def
        list_orders_def list_user_orders_def get_order_def first_by_id_def Let_def
        split: option.splits if_splits sum.splits)

lemma store_ok_route:
  assumes ok: "store_ok s" and rt: "route cfg now a req s = Inr (r, s')"
  shows "store_ok s'"
proof (cases req)
  case Home
  with rt ok show ?thesis by (auto dest: read_only)
next
  case (Signup user_schema salt)
  with rt ok show ?thesis
    by (auto simp: depends_verify_token_def split: sum.splits dest: store_ok_signup)
next
  case (SignupAdmin user_schema salt)
  with rt ok show ?thesis by (auto dest: store_ok_signup_admin)
next
  case (Login login_schema)
  with rt ok show ?thesis by (auto dest: read_only)
next
  case (LoginForm username password)
  with rt ok show ?thesis by (auto dest: read_only)
next
  case Refresh
  with rt ok show ?thesis
    by (auto simp: depends_verify_token_def split: sum.splits dest: read_only)
next
  case Orders
  with rt ok show ?thesis
    by (auto simp: depends_verify_token_def split: sum.splits dest: read_only)
next
  case (CreateOrder order_schema)
  with rt ok show ?thesis
    by (auto simp: depends_verify_token_def split: sum.splits dest: store_ok_order_route)
next
  case ListOrders
  with rt ok show ?thesis
    by (auto simp: depends_verify_token_def split: sum.splits dest: read_only)
next
  case (ListUserOrders user_id)
  with rt ok show ?thesis
    by (auto simp: depends_verify_token_def split: sum.splits dest: read_only)
next
  case (GetOrder order_id)
  with rt ok show ?thesis
    by (auto simp: depends_verify_token_def split: sum.splits dest: read_only)
next
  case (AddItem order_id order_item_schema)
  with rt ok show ?thesis
    by (auto simp: depends_verify_token_def split: sum.splits dest: store_ok_add)
next
  case (RemoveItem order_item_id)
  with rt ok show ?thesis
    by (auto simp: depends_verify_token_def split: sum.splits dest: store_ok_remove)
next
  case (CancelOrder order_id)
  with rt ok show ?thesis
    by (auto simp: depends_verify_token_def split: sum.splits dest: store_ok_cancel)
next
  case (CompleteOrder order_id)
  with rt ok show ?thesis
    by (auto simp: depends_verify_token_def split: sum.splits dest: store_ok_complete)
qed

lemma store_ok_store_after: "store_ok s \<Longrightarrow> store_ok (store_after cfg now a req s)"
  by (auto simp: store_after_def split: sum.splits dest: store_ok_route)

lemma reachable_store_ok: "reachable cfg s \<Longrightarrow> store_ok s"
  by (induction rule: reachable.induct) (simp_all add: store_ok_empty store_ok_store_after)

section \<open>Listing all orders\<close>

text \<open>
  Claim C8. For every authenticated principal, \<^verbatim>\<open>GET /orders/list\<close> returns all orders of
  the store when the principal is admin, and fails with 403 for every other principal,
  whatever orders that principal owns.
\<close>

theorem list_orders_admin_only:
  "verify_token cfg now a s = Inr user \<Longrightarrow>
   route cfg now a ListOrders s =
     (if u_admin user = Some True then Inr (OrdersList (orders s), s)
      else Inl (HTTPException 403 ''You are not authorized to make this request.''))"
  by (simp add: depends_ok list_orders_def truthy_def not_authorized_def)

text \<open>In the sample store the owner of the only order is refused and the administrator is served.\<close>

theorem list_orders_admin_only_witness:
  "verify_token cfg0 1200 (Some ann_token) shop = Inr ann \<and>
   o_user ann_order = u_id ann \<and>
   route cfg0 1200 (Some ann_token) ListOrders shop =
     Inl (HTTPException 403 ''You are not authorized to make this request.'') \<and>
   verify_token cfg0 1200 (Some zoe_token) shop = Inr zoe \<and>
   route cfg0 1200 (Some zoe_token) ListOrders shop = Inr (OrdersList [ann_order], shop)"
  using list_orders_admin_only [OF shop_ann] list_orders_admin_only [OF shop_zoe] shop_ann shop_zoe
  by (simp add: ann_def zoe_def shop_def ann_order_def)

section \<open>Requests on the sample store\<close>

text \<open>
  The sample store is one the application reaches: three signups, an order created by
  its owner and one added item. The further facts evaluate single requests on it.
\<close>

lemmas eval_defs = store_after_def depends_verify_token_def signup_admin_def order_route_def
  add_iten_order_def remove_iten_order_def next_id_def argon2_hash_def argon2_context_hash_def
  truthy_def Let_def calculate_price_def itens_def py_sum_def update_price_def update_status_def
  first_by_id_def fits_integer_def py_str_def str_nat.simps digit_char_def

lemma people_ann: "verify_token cfg0 1200 (Some ann_token) people = Inr ann"
  unfolding ann_token_def by (rule verify_token_issued) (simp_all add: sample_defs access_time_def fits_integer_def)

lemma people_order: "verify_token cfg0 1200 (Some ann_token)
   (people\<lparr>orders := [ann_order\<lparr>o_price := 0\<rparr>]\<rparr>) = Inr ann"
  unfolding ann_token_def by (rule verify_token_issued) (simp_all add: sample_defs access_time_def fits_integer_def)

lemma people_reachable: "reachable cfg0 people"
proof -
  have 1: "store_after cfg0 0 None (SignupAdmin zoe_schema 11) empty_db
           = \<lparr>users = [zoe], orders = [], order_itens = []\<rparr>"
    by (simp add: eval_defs empty_db_def sample_defs)
  have 2: "store_after cfg0 0 None (SignupAdmin ann_schema 12) \<lparr>users = [zoe], orders = [], order_itens = []\<rparr>
           = \<lparr>users = [zoe, ann], orders = [], order_itens = []\<rparr>"
    by (simp add: eval_defs sample_defs)
  have 3: "store_after cfg0 0 None (SignupAdmin bob_schema 13) \<lparr>users = [zoe, ann], orders = [], order_itens = []\<rparr>
           = people"
    by (simp add: eval_defs sample_defs)
  have "reachable cfg0 (store_after cfg0 0 None (SignupAdmin zoe_schema 11) empty_db)"
    by (rule reachable_request [OF reachable_empty])
  then have "reachable cfg0 (store_after cfg0 0 None (SignupAdmin ann_schema 12) \<lparr>users = [zoe], orders = [], order_itens = []\<rparr>)"
    unfolding 1 by (rule reachable_request)
  then have "reachable cfg0 (store_after cfg0 0 None (SignupAdmin bob_schema 13) \<lparr>users = [zoe, ann], orders = [], order_itens = []\<rparr>)"
    unfolding 2 by (rule reachable_request)
  then show ?thesis unfolding 3 .
qed

lemma shop_reachable: "reachable cfg0 shop"
proof -
  have 1: "store_after cfg0 1200 (Some ann_token) (CreateOrder \<lparr>os_user_id = 2\<rparr>) people
           = people\<lparr>orders := [ann_order\<lparr>o_price := 0\<rparr>]\<rparr>"
    by (simp add: store_after_def depends_ok [OF people_ann])
       (simp add: eval_defs sample_defs)
  have 2: "store_after cfg0 1200 (Some ann_token) (AddItem 1 margherita)
             (people\<lparr>orders := [ann_order\<lparr>o_price := 0\<rparr>]\<rparr>) = shop"
    by (simp add: store_after_def depends_ok [OF people_order])
       (simp add: eval_defs sample_defs)
  have "reachable cfg0 (store_after cfg0 1200 (Some ann_token) (CreateOrder \<lparr>os_user_id = 2\<rparr>) people)"
    by (rule reachable_request [OF people_reachable])
  then have "reachable cfg0 (store_after cfg0 1200 (Some ann_token) (AddItem 1 margherita)
             (people\<lparr>orders := [ann_order\<lparr>o_price := 0\<rparr>]\<rparr>))"
    unfolding 1 by (rule reachable_request)
  then show ?thesis unfolding 2 .
qed

lemma shop_add: "add_iten_order 1 calabresa ann shop = Inr (ItemCreated 2 17.5, shop_two)"
  by (simp add: eval_defs sample_defs)

lemma shop_remove:
  "remove_iten_order 1 ann shop_two =
     Inr (ItemDeleted [second_item] (ann_order\<lparr>o_price := 10\<rparr>), shop_one)"
  by (simp add: eval_defs sample_defs)

lemma shop_complete:
  "route cfg0 1200 (Some ann_token) (CompleteOrder 1) shop =
     Inr (OrderUpdated ''Order 1 completed successfully.'' (ann_order\<lparr>o_status := ''completed''\<rparr>),
          shop\<lparr>orders := [ann_order\<lparr>o_status := ''completed''\<rparr>]\<rparr>)"
  by (simp add: depends_ok [OF shop_ann])
     (simp add: complete_order_def eval_defs sample_defs)

section \<open>Adding an item and removing it again\<close>

lemma find_map_key:
  "(\<And>x. key (f x) = key x) \<Longrightarrow>
   find (\<lambda>row. key row = k) (map f xs) = map_option f (find (\<lambda>row. key row = k) xs)"
  by (induction xs) simp_all

lemma find_append_last:
  "(\<And>x. x \<in> set xs \<Longrightarrow> \<not> P x) \<Longrightarrow> P y \<Longrightarrow> find P (xs @ [y]) = Some y"
  by (induction xs) simp_all

lemma next_id_fresh_key: "x \<in> set xs \<Longrightarrow> key x \<noteq> next_id (map key xs)"
proof
  assume "x \<in> set xs" and "key x = next_id (map key xs)"
  then have "next_id (map key xs) \<in> set (map key xs)" by (metis image_eqI set_map)
  then show False using next_id_fresh by blast
qed

lemma update_price_restore:
  assumes "store_ok s"
  shows "update_price k (items_total s k) s = s"
proof -
  have "map (\<lambda>row. if o_id row = k then row\<lparr>o_price := items_total s k\<rparr> else row) (orders s)
        = orders s"
    by (rule map_idI) (use store_ok_price [OF assms] in auto)
  then show ?thesis by (simp add: update_price_def)
qed

lemma update_price_twice [simp]:
  "update_price k p (update_price k q s) = update_price k p s"
  by (simp add: update_price_def o_def cong: if_cong)

lemma itens_update_price [simp]: "itens (update_price k p s) order = itens s order"
  by (simp add: itens_def update_price_def)

lemma add_then_remove:
  assumes ok: "store_ok s"
    and add: "add_iten_order order_id p user s = Inr (ItemCreated item_id new_price, s')"
  shows "\<exists>order. find (\<lambda>row. o_id row = order_id) (orders s) = Some order \<and>
           remove_iten_order item_id user s' = Inr (ItemDeleted (itens s order) order, s)"
proof -
  define item where "item = \<lparr>i_id = next_id (map i_id (order_itens s)), i_quantity = is_quantity p,
                   i_flavor = is_flavor p, i_size = py_str (is_size p), i_unit_price = is_unit_price p,
                   i_order = order_id\<rparr>"
  define fl where "fl = s\<lparr>order_itens := order_itens s @ [item]\<rparr>"
  define t where "t = items_total fl order_id"
  have s': "s' = update_price order_id t fl"
    using add_iten_order_store(1) [OF add] by (simp add: item_def fl_def t_def)
  have "ItemCreated item_id new_price = ItemCreated (i_id item) t"
    using add_iten_order_store(2) [OF add] by (simp add: item_def fl_def t_def)
  then have iid: "item_id = i_id item" by simp
  have item: "i_id item = next_id (map i_id (order_itens s))" "i_order item = order_id"
    by (simp_all add: item_def)
  from add obtain order where f: "find (\<lambda>row. o_id row = order_id) (orders s) = Some order"
    by (auto simp: add_iten_order_def first_by_id_def split: option.splits if_splits)
  with add have auth: "\<not> (\<not> truthy (u_admin user) \<and> u_id user \<noteq> o_user order)"
    by (auto simp: add_iten_order_def first_by_id_def split: if_splits)
  have oid: "o_id order = order_id" and mem: "order \<in> set (orders s)"
    using find_in_set [OF f] by simp_all
  have price: "o_price order = items_total s order_id"
    using store_ok_price [OF ok mem] oid by simp
  have fresh: "\<And>x. x \<in> set (order_itens s) \<Longrightarrow> i_id x \<noteq> item_id"
    using next_id_fresh_key [where key = i_id] iid item by simp
  have items': "order_itens s' = order_itens s @ [item]"
    by (simp add: s' fl_def update_price_def)
  have fi: "find (\<lambda>x. i_id x = item_id) (order_itens s') = Some item"
    unfolding items' by (rule find_append_last) (use fresh iid in auto)
  have orders': "orders s' = map (\<lambda>row. if o_id row = order_id then row\<lparr>o_price := t\<rparr> else row) (orders s)"
    by (simp add: s' fl_def update_price_def)
  have "find (\<lambda>row. o_id row = order_id) (orders s') =
        map_option (\<lambda>row. if o_id row = order_id then row\<lparr>o_price := t\<rparr> else row)
          (find (\<lambda>row. o_id row = order_id) (orders s))"
    unfolding orders' by (rule find_map_key) simp
  then have fo: "find (\<lambda>row. o_id row = i_order item) (orders s') = Some (order\<lparr>o_price := t\<rparr>)"
    by (simp add: item(2) f oid)
  have kept: "filter (\<lambda>x. i_id x \<noteq> i_id item) (order_itens s') = order_itens s"
    unfolding items' using fresh iid by (simp add: filter_id_conv)
  have flushed: "s'\<lparr>order_itens := order_itens s\<rparr> = update_price order_id t s"
    by (simp add: s' fl_def update_price_def)
  have total: "items_total (update_price order_id t s) order_id = o_price order"
    using price by simp
  have priced: "calculate_price (update_price order_id t s) (order\<lparr>o_price := t\<rparr>) = order"
    using calculate_price_total [of "update_price order_id t s" "order\<lparr>o_price := t\<rparr>"] total oid
    by (simp add: calculate_price_def)
  have restore: "update_price order_id (o_price order) s = s"
    using update_price_restore [OF ok, of order_id] price by simp
  have "remove_iten_order item_id user s' = Inr (ItemDeleted (itens s order) order, s)"
    using auth
    by (simp add: remove_iten_order_def first_by_id_found [OF fi] fo kept flushed priced restore
          oid Let_def)
  with f show ?thesis by blast
qed

text \<open>
  Claim C7. In every store the application reaches, when \<^verbatim>\<open>add_iten_order\<close> succeeds on
  an order, removing the item it created (by the same user) succeeds, hands back the
  order exactly as it was before the addition, price included, and leaves the store it
  started from.
\<close>

theorem add_then_remove_restores_price:
  assumes "reachable cfg s"
    and "add_iten_order order_id p user s = Inr (ItemCreated item_id new_price, s')"
  shows "\<exists>order. find (\<lambda>row. o_id row = order_id) (orders s) = Some order \<and>
           remove_iten_order item_id user s' = Inr (ItemDeleted (itens s order) order, s)"
  using add_then_remove [OF reachable_store_ok [OF assms(1)] assms(2)] .

theorem add_then_remove_restores_price_witness:
  "reachable cfg0 shop \<and>
   add_iten_order 1 calabresa ann shop = Inr (ItemCreated 2 17.5, shop_two) \<and>
   find (\<lambda>row. o_id row = 1) (orders shop) = Some ann_order \<and>
   o_price ann_order = 7.5 \<and>
   remove_iten_order 2 ann shop_two = Inr (ItemDeleted [ann_item] ann_order, shop)"
  using add_then_remove_restores_price [OF shop_reachable shop_add] shop_reachable shop_add
  by (simp add: shop_def ann_order_def ann_item_def itens_def)

section \<open>Owner or admin\<close>

lemma find_order_id: "find (\<lambda>row. o_id row = k) xs = Some order \<Longrightarrow> o_id order = k"
  by (auto simp: find_Some_iff)



section \<open>The status of an order\<close>

lemma statuses_update_status:
  "map o_status (orders (update_status k st s)) =
   map (\<lambda>row. if o_id row = k then st else o_status row) (orders s)"
  by (simp add: update_status_def o_def if_distrib cong: if_cong)

lemma statuses_other_routes:
  assumes rt: "route cfg now a req s = Inr (r, s')"
    and "\<forall>k. req \<noteq> CancelOrder k" and "\<forall>k. req \<noteq> CompleteOrder k"
  shows "map o_status (orders s') = map o_status (orders s) \<or>
         map o_status (orders s') = map o_status (orders s) @ [''pending'']"
proof (cases req)
  case (Signup user_schema salt)
  with rt show ?thesis
    by (auto simp: depends_verify_token_def signup_def Let_def split: sum.splits option.splits if_splits)
next
  case (SignupAdmin user_schema salt)
  with rt show ?thesis
    by (auto simp: signup_admin_def Let_def split: option.splits sum.splits)
next
  case (CreateOrder order_schema)
  with rt show ?thesis
    by (auto simp: depends_verify_token_def order_route_def Let_def split: sum.splits if_splits)
next
  case (AddItem order_id p)
  with rt obtain user where "add_iten_order order_id p user s = Inr (r, s')"
    by (auto simp: depends_verify_token_def split: sum.splits)
  from add_iten_order_store(1) [OF this] show ?thesis
    by (simp add: update_price_def o_def)
next
  case (RemoveItem order_item_id)
  with rt obtain user where "remove_iten_order order_item_id user s = Inr (r, s')"
    by (auto simp: depends_verify_token_def split: sum.splits)
  from remove_iten_order_store [OF this] show ?thesis
    by (auto simp: update_price_def o_def)
qed (use assms in \<open>auto simp: depends_verify_token_def split: sum.splits dest: read_only\<close>)

text \<open>
  Claim C5 says that a canceled or completed order never changes its status again.
  \<^verbatim>\<open>cancel_order\<close> and \<^verbatim>\<open>complete_order\<close> assign the status without reading it: on the sample
  store the owner completes the order and then cancels it, and the completed order
  becomes canceled.
\<close>

theorem terminal_status_counterexample:
  "complete_order 1 ann shop =
     Inr (OrderUpdated ''Order 1 completed successfully.'' (ann_order\<lparr>o_status := ''completed''\<rparr>),
          shop\<lparr>orders := [ann_order\<lparr>o_status := ''completed''\<rparr>]\<rparr>) \<and>
   cancel_order 1 ann (shop\<lparr>orders := [ann_order\<lparr>o_status := ''completed''\<rparr>]\<rparr>) =
     Inr (OrderUpdated ''Order 1 canceled successfully.'' (ann_order\<lparr>o_status := ''canceled''\<rparr>),
          shop\<lparr>orders := [ann_order\<lparr>o_status := ''canceled''\<rparr>]\<rparr>)"
  by (simp add: complete_order_def cancel_order_def first_by_id_def update_status_def truthy_def
        Let_def py_str_def str_nat.simps digit_char_def shop_def ann_def ann_order_def)

text \<open>
  Claim C5, amended. A created order is stored with status pending. For a user who is
  admin or owns the order, \<^verbatim>\<open>cancel_order\<close> succeeds and sets the status of the order to
  canceled, and \<^verbatim>\<open>complete_order\<close> succeeds and sets it to completed, whatever the status
  was before (pending, canceled or completed); the status of every other order is kept.
  No other request changes the status of a stored order.
\<close>

theorem status_transitions:
  "(order_route order_schema user s = Inr (r, s') \<longrightarrow>
      map o_status (orders s') = map o_status (orders s) @ [''pending'']) \<and>
   (find (\<lambda>row. o_id row = order_id) (orders s) = Some order \<and>
    (u_admin user = Some True \<or> u_id user = o_user order) \<longrightarrow>
      (\<exists>r1 s1. cancel_order order_id user s = Inr (r1, s1) \<and>
         map o_status (orders s1) =
           map (\<lambda>row. if o_id row = order_id then ''canceled'' else o_status row) (orders s)) \<and>
      (\<exists>r2 s2. complete_order order_id user s = Inr (r2, s2) \<and>
         map o_status (orders s2) =
           map (\<lambda>row. if o_id row = order_id then ''completed'' else o_status row) (orders s))) \<and>
   (route cfg now a req s = Inr (r, s') \<and> (\<forall>k. req \<noteq> CancelOrder k) \<and> (\<forall>k. req \<noteq> CompleteOrder k) \<longrightarrow>
      map o_status (orders s') = map o_status (orders s) \<or>
      map o_status (orders s') = map o_status (orders s) @ [''pending''])"
proof (intro conjI impI)
  assume "order_route order_schema user s = Inr (r, s')"
  then show "map o_status (orders s') = map o_status (orders s) @ [''pending'']"
    by (auto simp: order_route_def Let_def split: if_splits)
next
  assume a: "find (\<lambda>row. o_id row = order_id) (orders s) = Some order \<and>
    (u_admin user = Some True \<or> u_id user = o_user order)"
  then have oid: "o_id order = order_id" using find_order_id by blast
  from a show "\<exists>r1 s1. cancel_order order_id user s = Inr (r1, s1) \<and>
         map o_status (orders s1) =
           map (\<lambda>row. if o_id row = order_id then ''canceled'' else o_status row) (orders s)"
    by (auto simp: cancel_order_def first_by_id_def truthy_def Let_def statuses_update_status oid)
  from a show "\<exists>r2 s2. complete_order order_id user s = Inr (r2, s2) \<and>
         map o_status (orders s2) =
           map (\<lambda>row. if o_id row = order_id then ''completed'' else o_status row) (orders s)"
    by (auto simp: complete_order_def first_by_id_def truthy_def Let_def statuses_update_status oid)
next
  assume "route cfg now a req s = Inr (r, s') \<and> (\<forall>k. req \<noteq> CancelOrder k) \<and> (\<forall>k. req \<noteq> CompleteOrder k)"
  then show "map o_status (orders s') = map o_status (orders s) \<or>
      map o_status (orders s') = map o_status (orders s) @ [''pending'']"
    using statuses_other_routes by blast
qed

text \<open>
  On the sample data: the order ann creates is pending; her completed order can be
  canceled and completed again; adding an item leaves the status alone.
\<close>

lemma people_create:
  "order_route \<lparr>os_user_id = 2\<rparr> ann people =
     Inr (Message ''Order created successfully. Order ID: 1'', people\<lparr>orders := [ann_order\<lparr>o_price := 0\<rparr>]\<rparr>)"
  by (simp add: order_route_def next_id_def truthy_def fits_integer_def Let_def py_str_def
        str_nat.simps digit_char_def people_def ann_def ann_order_def)

lemma shop_route_add:
  "route cfg0 1200 (Some ann_token) (AddItem 1 calabresa) shop = Inr (ItemCreated 2 17.5, shop_two)"
  by (simp add: depends_ok [OF shop_ann] shop_add)

theorem status_transitions_witness:
  "map o_status (orders (people\<lparr>orders := [ann_order\<lparr>o_price := 0\<rparr>]\<rparr>)) =
     map o_status (orders people) @ [''pending''] \<and>
   o_status (ann_order\<lparr>o_status := ''completed''\<rparr>) = ''completed'' \<and>
   (\<exists>r1 s1. cancel_order 1 ann (shop\<lparr>orders := [ann_order\<lparr>o_status := ''completed''\<rparr>]\<rparr>) = Inr (r1, s1) \<and>
      map o_status (orders s1) = [''canceled'']) \<and>
   (\<exists>r2 s2. complete_order 1 ann (shop\<lparr>orders := [ann_order\<lparr>o_status := ''completed''\<rparr>]\<rparr>) = Inr (r2, s2) \<and>
      map o_status (orders s2) = [''completed'']) \<and>
   route cfg0 1200 (Some ann_token) (AddItem 1 calabresa) shop = Inr (ItemCreated 2 17.5, shop_two) \<and>
   map o_status (orders shop_two) = map o_status (orders shop)"
proof -
  have 1: "map o_status (orders (people\<lparr>orders := [ann_order\<lparr>o_price := 0\<rparr>]\<rparr>)) =
     map o_status (orders people) @ [''pending'']"
    using status_transitions [THEN conjunct1, THEN mp, OF people_create] .
  have pre: "find (\<lambda>row. o_id row = 1) (orders (shop\<lparr>orders := [ann_order\<lparr>o_status := ''completed''\<rparr>]\<rparr>))
               = Some (ann_order\<lparr>o_status := ''completed''\<rparr>) \<and>
             (u_admin ann = Some True \<or> u_id ann = o_user (ann_order\<lparr>o_status := ''completed''\<rparr>))"
    by (simp add: ann_order_def ann_def)
  note both = status_transitions [THEN conjunct2, THEN conjunct1, THEN mp, OF pre]
  have 2: "\<exists>r1 s1. cancel_order 1 ann (shop\<lparr>orders := [ann_order\<lparr>o_status := ''completed''\<rparr>]\<rparr>) = Inr (r1, s1) \<and>
      map o_status (orders s1) = [''canceled'']"
    using both [THEN conjunct1] by (simp add: ann_order_def)
  have 3: "\<exists>r2 s2. complete_order 1 ann (shop\<lparr>orders := [ann_order\<lparr>o_status := ''completed''\<rparr>]\<rparr>) = Inr (r2, s2) \<and>
      map o_status (orders s2) = [''completed'']"
    using both [THEN conjunct2] by (simp add: ann_order_def)
  have "route cfg0 1200 (Some ann_token) (AddItem 1 calabresa) shop = Inr (ItemCreated 2 17.5, shop_two) \<and>
        (\<forall>k. AddItem 1 calabresa \<noteq> CancelOrder k) \<and> (\<forall>k. AddItem 1 calabresa \<noteq> CompleteOrder k)"
    using shop_route_add by simp
  from status_transitions [THEN conjunct2, THEN conjunct2, THEN mp, OF this]
  have 4: "map o_status (orders shop_two) = map o_status (orders shop)"
    by (simp add: shop_def shop_two_def)
  show ?thesis using 1 2 3 4 shop_route_add by simp
qed

section \<open>The route without authentication\<close>

lemma find_new_row:
  "find P xs = None \<Longrightarrow> P y \<Longrightarrow> find P (xs @ [y]) = Some y"
  by (rule find_append_last) (auto simp: find_None_iff)

lemma signup_admin_store:
  assumes "signup_admin user_schema salt s = Inr (r, s')"
  shows "find (\<lambda>u. u_email u = us_email user_schema) (users s) = None"
    and "\<exists>new. users s' = users s @ [new] \<and> u_email new = us_email user_schema \<and>
               u_password new = Argon2 salt (take 72 (us_password user_schema))"
  using assms
  by (auto simp: signup_admin_def Let_def argon2_hash_def argon2_context_hash_def
           split: option.splits if_splits)

lemma login_after_signup_admin:
  assumes "signup_admin user_schema salt s = Inr (r, s')"
  shows "succeeds (login cfg now \<lparr>ls_email = us_email user_schema, ls_password = q\<rparr> s') =
         (q = take 72 (us_password user_schema))"
proof -
  from signup_admin_store [OF assms] obtain new where
    fresh: "find (\<lambda>u. u_email u = us_email user_schema) (users s) = None" and
    new: "users s' = users s @ [new]" "u_email new = us_email user_schema"
         "u_password new = Argon2 salt (take 72 (us_password user_schema))"
    by auto
  have "find (\<lambda>u. u_email u = us_email user_schema) (users s') = Some new"
    unfolding new(1) using fresh new(2) by (rule find_new_row)
  then show ?thesis
    by (auto simp: login_def authenticate_user_def argon2_context_verify_def new(3) succeeds_def
          Let_def)
qed

text \<open>
  Claim C9. \<^verbatim>\<open>POST /auth/signup_admin\<close> ignores the bearer token and runs no admin rule:
  with an email that is not stored it registers the user with the admin flag of the
  request, and the only error it returns is the 400 of a stored email. It hashes the
  first 72 characters of the password, so the new user logs in with exactly that prefix,
  and two signups whose passwords agree on their first 72 characters accept the same
  passwords at login.
\<close>

theorem signup_admin_unguarded:
  "route cfg now a (SignupAdmin user_schema salt) s = signup_admin user_schema salt s \<and>
   (find (\<lambda>u. u_email u = us_email user_schema) (users s) = None \<longrightarrow>
      registered user_schema s (signup_admin user_schema salt s)) \<and>
   (signup_admin user_schema salt s = Inl e \<longrightarrow>
      e = HTTPException 400 ''This user already exists with this email.'') \<and>
   (signup_admin user_schema salt s = Inr (r, s') \<longrightarrow>
      u_password (last (users s')) = argon2_hash salt (take 72 (us_password user_schema)) \<and>
      succeeds (login cfg now \<lparr>ls_email = us_email user_schema, ls_password = q\<rparr> s') =
        (q = take 72 (us_password user_schema))) \<and>
   (take 72 p1 = take 72 p2 \<and>
    signup_admin (user_schema\<lparr>us_password := p1\<rparr>) salt1 s = Inr (r1, s1) \<and>
    signup_admin (user_schema\<lparr>us_password := p2\<rparr>) salt2 s = Inr (r2, s2) \<longrightarrow>
      succeeds (login cfg now \<lparr>ls_email = us_email user_schema, ls_password = q\<rparr> s1) =
      succeeds (login cfg now \<lparr>ls_email = us_email user_schema, ls_password = q\<rparr> s2) \<and>
      (salt1 = salt2 \<longrightarrow> s1 = s2))"
proof (intro conjI impI)
  show "route cfg now a (SignupAdmin user_schema salt) s = signup_admin user_schema salt s" by simp
next
  assume "find (\<lambda>u. u_email u = us_email user_schema) (users s) = None"
  then show "registered user_schema s (signup_admin user_schema salt s)"
    by (auto simp: signup_admin_def registered_def truthy_def argon2_context_hash_def Let_def
             split: option.splits)
next
  assume "signup_admin user_schema salt s = Inl e"
  then show "e = HTTPException 400 ''This user already exists with this email.''"
    by (auto simp: signup_admin_def argon2_context_hash_def Let_def split: option.splits if_splits)
next
  assume ok: "signup_admin user_schema salt s = Inr (r, s')"
  from signup_admin_store(2) [OF ok]
  show "u_password (last (users s')) = argon2_hash salt (take 72 (us_password user_schema))"
    by (auto simp: argon2_hash_def)
  show "succeeds (login cfg now \<lparr>ls_email = us_email user_schema, ls_password = q\<rparr> s') =
        (q = take 72 (us_password user_schema))"
    by (rule login_after_signup_admin [OF ok])
next
  assume h: "take 72 p1 = take 72 p2 \<and>
    signup_admin (user_schema\<lparr>us_password := p1\<rparr>) salt1 s = Inr (r1, s1) \<and>
    signup_admin (user_schema\<lparr>us_password := p2\<rparr>) salt2 s = Inr (r2, s2)"
  then show "succeeds (login cfg now \<lparr>ls_email = us_email user_schema, ls_password = q\<rparr> s1) =
      succeeds (login cfg now \<lparr>ls_email = us_email user_schema, ls_password = q\<rparr> s2)"
    using login_after_signup_admin [of "user_schema\<lparr>us_password := p1\<rparr>" salt1 s r1 s1 cfg now q]
      login_after_signup_admin [of "user_schema\<lparr>us_password := p2\<rparr>" salt2 s r2 s2 cfg now q]
    by simp
next
  assume "take 72 p1 = take 72 p2 \<and>
    signup_admin (user_schema\<lparr>us_password := p1\<rparr>) salt1 s = Inr (r1, s1) \<and>
    signup_admin (user_schema\<lparr>us_password := p2\<rparr>) salt2 s = Inr (r2, s2)"
    and "salt1 = salt2"
  then show "s1 = s2"
    by (auto simp: signup_admin_def argon2_context_hash_def argon2_hash_def Let_def
             split: option.splits if_splits)
qed

text \<open>
  On the sample store, which already has an admin: a request without token creates
  another admin; with passwords that differ only after the 72nd character the stores
  are equal.
\<close>

lemma people_signup_admin:
  "signup_admin (eve_schema\<lparr>us_password := p\<rparr>) 14 people =
     Inr (Message ''User eve@shop registered successfully.'',
          people\<lparr>users := [zoe, ann, bob,
             \<lparr>u_id = 4, u_name = ''eve'', u_email = ''eve@shop'', u_password = Argon2 14 (take 72 p),
              u_activated = Some True, u_admin = Some True\<rparr>]\<rparr>)"
  by (simp add: signup_admin_def next_id_def argon2_hash_def argon2_context_hash_def Let_def
        eve_schema_def people_def zoe_def ann_def bob_def)

theorem signup_admin_unguarded_witness:
  "find (\<lambda>u. u_admin u = Some True) (users people) = Some zoe \<and>
   find (\<lambda>u. u_email u = us_email eve_schema) (users people) = None \<and>
   registered eve_schema people (route cfg0 0 None (SignupAdmin eve_schema 14) people) \<and>
   us_admin eve_schema = Some True \<and>
   take 72 long_one = take 72 long_two \<and> long_one \<noteq> long_two \<and>
   signup_admin (eve_schema\<lparr>us_password := long_one\<rparr>) 14 people =
   signup_admin (eve_schema\<lparr>us_password := long_two\<rparr>) 14 people"
proof -
  have fresh: "find (\<lambda>u. u_email u = us_email eve_schema) (users people) = None"
    by (simp add: eve_schema_def people_def zoe_def ann_def bob_def)
  have 1: "registered eve_schema people (route cfg0 0 None (SignupAdmin eve_schema 14) people)"
    using signup_admin_unguarded [THEN conjunct2, THEN conjunct1, THEN mp, OF fresh]
      signup_admin_unguarded [THEN conjunct1, of cfg0 0 None eve_schema 14 people]
    by simp
  have 2: "take 72 long_one = take 72 long_two \<and> long_one \<noteq> long_two"
    by (simp add: long_one_def long_two_def)
  have 3: "signup_admin (eve_schema\<lparr>us_password := long_one\<rparr>) 14 people =
           signup_admin (eve_schema\<lparr>us_password := long_two\<rparr>) 14 people"
    using 2 by (simp add: people_signup_admin)
  have 4: "find (\<lambda>u. u_admin u = Some True) (users people) = Some zoe"
    by (simp add: people_def zoe_def)
  show ?thesis using 1 2 3 4 fresh by (simp add: eve_schema_def)
qed

section \<open>Creating administrators through signup\<close>

lemma customers_ann: "verify_token cfg0 1200 (Some ann_token) customers = Inr ann"
  unfolding ann_token_def
  by (rule verify_token_issued) (simp_all add: sample_defs access_time_def fits_integer_def)

lemma people_zoe: "verify_token cfg0 1200 (Some zoe_token) people = Inr zoe"
  unfolding zoe_token_def
  by (rule verify_token_issued) (simp_all add: sample_defs access_time_def fits_integer_def)

lemma verify_token_nobody: "users s = [] \<Longrightarrow> verify_token cfg now a s \<noteq> Inr user"
  by (auto simp: verify_token_def oath2_schema_def first_by_id_def
           split: option.splits sum.splits error.splits if_splits)

text \<open>
  Claim C1 says that a signup with admin=true is allowed whenever the store holds no
  admin. The route runs \<^verbatim>\<open>verify_token\<close> first: on a store without admin, a request
  for an admin account with a new email and no token fails with 401.
\<close>

theorem signup_bootstrap_counterexample:
  "us_admin eve_schema = Some True \<and>
   find (\<lambda>u. u_admin u = Some True) (users customers) = None \<and>
   find (\<lambda>u. u_email u = us_email eve_schema) (users customers) = None \<and>
   route cfg0 1200 None (Signup eve_schema 14) customers =
     Inl (HTTPException 401 ''Not authenticated'')"
  by (simp add: depends_verify_token_def verify_token_def oath2_schema_def eve_schema_def
        customers_def ann_def bob_def)

text \<open>
  Claim C1, amended. The signup route applies the admin rule only to a request whose
  token authenticates: when \<^verbatim>\<open>verify_token\<close> fails the request fails with the same error,
  and on a store without users no signup succeeds. For a request with the principal
  that \<^verbatim>\<open>verify_token\<close> resolved: if it asks for an admin account and the store holds no
  admin, it is never refused with 403; if the store holds an admin, it succeeds only
  when the principal is admin, and with a new email and another principal it is refused
  with 403; if it does not ask for an admin account, it is never refused with 403. A
  request that is not refused registers its user when the email is new and the password
  has at most 4096 characters.
\<close>

theorem signup_admin_bootstrap:
  fixes user_schema :: UserSchema and salt :: nat and s :: db and cfg :: config and now :: int
    and a :: "token option"
  defines "res \<equiv> route cfg now a (Signup user_schema salt) s"
    and "fresh \<equiv> find (\<lambda>u. u_email u = us_email user_schema) (users s) = None"
    and "admin_exists \<equiv> find (\<lambda>u. u_admin u = Some True) (users s) \<noteq> None"
    and "short \<equiv> length (us_password user_schema) \<le> 4096"
  shows "(\<forall>e. verify_token cfg now a s = Inl e \<longrightarrow> res = Inl e) \<and>
         (users s = [] \<longrightarrow> \<not> succeeds res) \<and>
         (\<forall>user. verify_token cfg now a s = Inr user \<longrightarrow>
            (us_admin user_schema = Some True \<and> \<not> admin_exists \<longrightarrow>
               (\<forall>d. res \<noteq> Inl (HTTPException 403 d)) \<and>
               (fresh \<and> short \<longrightarrow> registered user_schema s res)) \<and>
            (us_admin user_schema = Some True \<and> admin_exists \<longrightarrow>
               (succeeds res \<longrightarrow> u_admin user = Some True) \<and>
               (fresh \<and> short \<and> u_admin user = Some True \<longrightarrow> registered user_schema s res) \<and>
               (fresh \<and> u_admin user \<noteq> Some True \<longrightarrow>
                  res = Inl (HTTPException 403 ''Only admins can create new admin users.''))) \<and>
            (us_admin user_schema \<noteq> Some True \<longrightarrow>
               (\<forall>d. res \<noteq> Inl (HTTPException 403 d)) \<and>
               (fresh \<and> short \<longrightarrow> registered user_schema s res)))"
proof (intro conjI allI impI)
  fix e assume "verify_token cfg now a s = Inl e"
  then show "res = Inl e" by (simp add: res_def depends_fail)
next
  assume "users s = []"
  then show "\<not> succeeds res"
    using verify_token_nobody [of s cfg now a]
    by (auto simp: res_def depends_verify_token_def succeeds_def split: sum.splits)
next
  fix user assume v: "verify_token cfg now a s = Inr user"
  have res: "res = signup user_schema salt s (Some user)"
    by (simp add: res_def depends_ok [OF v])
  {
    fix d assume "us_admin user_schema = Some True \<and> \<not> admin_exists"
    then show "res \<noteq> Inl (HTTPException 403 d)"
      unfolding res admin_exists_def
      by (auto simp: signup_def argon2_context_hash_def truthy_def Let_def split: option.splits)
  next
    assume "us_admin user_schema = Some True \<and> \<not> admin_exists" and "fresh \<and> short"
    then show "registered user_schema s res"
      unfolding res admin_exists_def fresh_def short_def
      by (auto simp: signup_def argon2_context_hash_def registered_def truthy_def Let_def)
  next
    assume "us_admin user_schema = Some True \<and> admin_exists" and "succeeds res"
    then show "u_admin user = Some True"
      unfolding res admin_exists_def
      by (auto simp: signup_def succeeds_def truthy_def Let_def split: option.splits if_splits)
  next
    assume "us_admin user_schema = Some True \<and> admin_exists"
      and "fresh \<and> short \<and> u_admin user = Some True"
    then show "registered user_schema s res"
      unfolding res admin_exists_def fresh_def short_def
      by (auto simp: signup_def argon2_context_hash_def registered_def truthy_def Let_def)
  next
    assume "us_admin user_schema = Some True \<and> admin_exists"
      and "fresh \<and> u_admin user \<noteq> Some True"
    then show "res = Inl (HTTPException 403 ''Only admins can create new admin users.'')"
      unfolding res admin_exists_def fresh_def
      by (auto simp: signup_def truthy_def Let_def)
  next
    fix d assume "us_admin user_schema \<noteq> Some True"
    then show "res \<noteq> Inl (HTTPException 403 d)"
      unfolding res
      by (auto simp: signup_def argon2_context_hash_def truthy_def Let_def split: option.splits)
  next
    assume "us_admin user_schema \<noteq> Some True" and "fresh \<and> short"
    then show "registered user_schema s res"
      unfolding res fresh_def short_def
      by (auto simp: signup_def argon2_context_hash_def registered_def truthy_def Let_def
               split: option.splits)
  }
qed

text \<open>
  On the sample data: without an admin in the store the customer ann creates the first
  admin; with one, the same request is refused for ann and granted to the admin zoe; a
  request for a plain account passes for ann.
\<close>

theorem signup_admin_bootstrap_witness:
  "find (\<lambda>u. u_admin u = Some True) (users customers) = None \<and>
   verify_token cfg0 1200 (Some ann_token) customers = Inr ann \<and>
   registered eve_schema customers (route cfg0 1200 (Some ann_token) (Signup eve_schema 14) customers) \<and>
   find (\<lambda>u. u_admin u = Some True) (users people) = Some zoe \<and>
   verify_token cfg0 1200 (Some ann_token) people = Inr ann \<and>
   route cfg0 1200 (Some ann_token) (Signup eve_schema 14) people =
     Inl (HTTPException 403 ''Only admins can create new admin users.'') \<and>
   verify_token cfg0 1200 (Some zoe_token) people = Inr zoe \<and>
   registered eve_schema people (route cfg0 1200 (Some zoe_token) (Signup eve_schema 14) people) \<and>
   registered dan_schema people (route cfg0 1200 (Some ann_token) (Signup dan_schema 15) people) \<and>
   \<not> succeeds (route cfg0 1200 (Some ann_token) (Signup eve_schema 14) empty_db)"
proof -
  note rule = signup_admin_bootstrap [THEN conjunct2, THEN conjunct2, rule_format]
  have 1: "registered eve_schema customers
             (route cfg0 1200 (Some ann_token) (Signup eve_schema 14) customers)"
    using rule [OF customers_ann, of eve_schema 14]
    by (simp add: eve_schema_def customers_def ann_def bob_def)
  have 2: "route cfg0 1200 (Some ann_token) (Signup eve_schema 14) people =
     Inl (HTTPException 403 ''Only admins can create new admin users.'')"
    using rule [OF people_ann, of eve_schema 14]
    by (simp add: eve_schema_def people_def zoe_def ann_def bob_def)
  have 3: "registered eve_schema people
             (route cfg0 1200 (Some zoe_token) (Signup eve_schema 14) people)"
    using rule [OF people_zoe, of eve_schema 14]
    by (simp add: eve_schema_def people_def zoe_def ann_def bob_def)
  have 4: "registered dan_schema people
             (route cfg0 1200 (Some ann_token) (Signup dan_schema 15) people)"
    using rule [OF people_ann, of dan_schema 15]
    by (simp add: dan_schema_def people_def zoe_def ann_def bob_def)
  have 5: "\<not> succeeds (route cfg0 1200 (Some ann_token) (Signup eve_schema 14) empty_db)"
    using signup_admin_bootstrap [THEN conjunct2, THEN conjunct1, of empty_db cfg0 1200
        "Some ann_token" eve_schema 14]
    by (simp add: empty_db_def)
  have 6: "find (\<lambda>u. u_admin u = Some True) (users customers) = None"
    by (simp add: customers_def ann_def bob_def)
  have 7: "find (\<lambda>u. u_admin u = Some True) (users people) = Some zoe"
    by (simp add: people_def zoe_def)
  show ?thesis using 1 2 3 4 5 6 7 customers_ann people_ann people_zoe by simp
qed

section \<open>Owner or admin on the order routes\<close>



section \<open>What an added item may carry\<close>




section \<open>Authentication before the handlers\<close>

lemmas validate_defs = validate_claims_def validate_iat_def validate_nbf_def validate_exp_def
  validate_aud_def validate_sub_def validate_jti_def validate_at_hash_def claim_of_def
  int_claim_def

lemma expired_claims:
  "e < now \<Longrightarrow> validate_claims now [(''sub'', JStr sub), (''exp'', JInt e)] = Some JWTError"
  by (simp add: validate_defs)

lemma unauthenticated_401:
  "unauthenticated cfg now s a \<Longrightarrow> \<exists>d. verify_token cfg now a s = Inl (HTTPException 401 d)"
proof (induction cfg now s a rule: unauthenticated.induct)
  case (3 cfg now s k al ks sub ke e)
  show ?case
  proof (cases "k \<noteq> SECRET_KEY cfg \<or> al \<noteq> ALGORITHM cfg")
    case True
    then show ?thesis by (auto simp: verify_token_def oath2_schema_def)
  next
    case False
    with 3 have keys: "ks = ''sub''" "ke = ''exp''" by auto
    show ?thesis
    proof (cases "e < now")
      case True
      with False keys show ?thesis
        by (simp add: verify_token_def oath2_schema_def expired_claims)
    next
      case live: False
      with 3 False keys obtain n where n: "parse_int sub = Some n" "fits_integer n"
          "find (\<lambda>u. u_id u = n) (users s) = None"
        by (auto split: option.splits)
      with False keys live show ?thesis
        by (simp add: verify_token_def oath2_schema_def issued_claims dict_get_def claim_of_def
              first_by_id_def)
    qed
  qed
qed (auto simp: verify_token_def oath2_schema_def)

lemma gate_closed:
  assumes "verify_token cfg now a s = Inl e"
    and "order_request req \<or> req = Signup user_schema salt \<or> req = Refresh"
  shows "route cfg now a req s = Inl e"
  using assms by (cases req) (auto simp: depends_fail)

text \<open>
  Claim C6 says that signup can be called without a valid token. The route declares the
  same dependency on \<^verbatim>\<open>verify_token\<close> as the order routes: a signup for a plain account
  with a new email, sent without a token or with a string that is no JWT, fails with
  401 and registers nobody.
\<close>

theorem signup_without_token_counterexample:
  "route cfg0 1200 None (Signup dan_schema 15) people = Inl (HTTPException 401 ''Not authenticated'') \<and>
   route cfg0 1200 (Some (Garbage ''xyz'')) (Signup dan_schema 15) people =
     Inl (HTTPException 401 ''Access denied, check token validity'')"
  by (simp add: depends_verify_token_def verify_token_def oath2_schema_def)

text \<open>
  Claim C6, amended. \<^verbatim>\<open>verify_token\<close> fails with 401 on every token that does not
  authenticate: an absent one, a string that is no JWT, a JWT signed with another key or
  algorithm, and, among the JWTs with a text subject and an integer expiry as
  \<^verbatim>\<open>get_token\<close> writes them, an expired one and one whose subject reads as an integer of
  the column's range that is no stored user's id. Every order route, and signup and
  refresh as well, runs its body only after \<^verbatim>\<open>verify_token\<close> returned a user: when it
  fails, the request fails with the same error and the store is unchanged.
\<close>

theorem authentication_gate:
  "(unauthenticated cfg now s a \<longrightarrow> (\<exists>d. verify_token cfg now a s = Inl (HTTPException 401 d))) \<and>
   ((order_request req \<or> req = Signup user_schema salt \<or> req = Refresh) \<and>
    verify_token cfg now a s = Inl e \<longrightarrow>
      route cfg now a req s = Inl e \<and> store_after cfg now a req s = s) \<and>
   ((order_request req \<or> req = Signup user_schema salt \<or> req = Refresh) \<and>
    unauthenticated cfg now s a \<longrightarrow>
      (\<exists>d. route cfg now a req s = Inl (HTTPException 401 d)) \<and> store_after cfg now a req s = s)"
proof (intro conjI impI)
  assume "unauthenticated cfg now s a"
  then show "\<exists>d. verify_token cfg now a s = Inl (HTTPException 401 d)"
    by (rule unauthenticated_401)
next
  assume h: "(order_request req \<or> req = Signup user_schema salt \<or> req = Refresh) \<and>
    verify_token cfg now a s = Inl e"
  then show "route cfg now a req s = Inl e" using gate_closed by blast
  then show "store_after cfg now a req s = s" by (simp add: store_after_def)
next
  assume h: "(order_request req \<or> req = Signup user_schema salt \<or> req = Refresh) \<and>
    unauthenticated cfg now s a"
  then obtain d where d: "verify_token cfg now a s = Inl (HTTPException 401 d)"
    using unauthenticated_401 by blast
  with h have r: "route cfg now a req s = Inl (HTTPException 401 d)" using gate_closed by blast
  then show "\<exists>d. route cfg now a req s = Inl (HTTPException 401 d)" by blast
  from r show "store_after cfg now a req s = s" by (simp add: store_after_def)
qed

text \<open>
  On the sample store: no token, a token signed with another key, ann's token after its
  expiry, and a well-signed token for a user id that is not stored.
\<close>

theorem authentication_gate_witness:
  "unauthenticated cfg0 1200 shop None \<and>
   route cfg0 1200 None (GetOrder 1) shop = Inl (HTTPException 401 ''Not authenticated'') \<and>
   unauthenticated cfg0 1200 shop
     (Some (JWT ''other'' ''HS256'' (JObj [(''sub'', JStr ''2''), (''exp'', JInt 2800)]))) \<and>
   route cfg0 1200 (Some (JWT ''other'' ''HS256'' (JObj [(''sub'', JStr ''2''), (''exp'', JInt 2800)])))
       (CancelOrder 1) shop =
     Inl (HTTPException 401 ''Access denied, check token validity'') \<and>
   unauthenticated cfg0 2801 shop (Some ann_token) \<and>
   route cfg0 2801 (Some ann_token) (AddItem 1 calabresa) shop =
     Inl (HTTPException 401 ''Access denied, check token validity'') \<and>
   unauthenticated cfg0 1200 shop (Some (get_token cfg0 1000 9 (access_time cfg0))) \<and>
   route cfg0 1200 (Some (get_token cfg0 1000 9 (access_time cfg0))) ListOrders shop =
     Inl (HTTPException 401 ''Invalid access'') \<and>
   route cfg0 1200 None (Signup dan_schema 15) shop = Inl (HTTPException 401 ''Not authenticated'') \<and>
   store_after cfg0 1200 None (Signup dan_schema 15) shop = shop \<and>
   (\<exists>d. verify_token cfg0 2801 (Some ann_token) shop = Inl (HTTPException 401 d))"
proof -
  have nine: "parse_int (py_str 9) = Some 9" by (rule parse_int_py_str) (simp add: fits_integer_def)
  have two: "parse_int (py_str 2) = Some 2" by (rule parse_int_py_str) (simp add: fits_integer_def)
  have u1: "unauthenticated cfg0 1200 shop None" by simp
  have u2: "unauthenticated cfg0 1200 shop
     (Some (JWT ''other'' ''HS256'' (JObj [(''sub'', JStr ''2''), (''exp'', JInt 2800)])))"
    by (simp add: cfg0_def)
  have u3: "unauthenticated cfg0 2801 shop (Some ann_token)"
    by (simp add: ann_token_def get_token_def jwt_encode_def access_time_def cfg0_def)
  have u4: "unauthenticated cfg0 1200 shop (Some (get_token cfg0 1000 9 (access_time cfg0)))"
    by (simp add: get_token_def jwt_encode_def access_time_def nine fits_integer_def)
       (simp add: cfg0_def shop_def zoe_def ann_def bob_def)
  have v1: "verify_token cfg0 1200 None shop = Inl (HTTPException 401 ''Not authenticated'')"
    by (simp add: verify_token_def oath2_schema_def)
  have v2: "verify_token cfg0 1200
              (Some (JWT ''other'' ''HS256'' (JObj [(''sub'', JStr ''2''), (''exp'', JInt 2800)]))) shop
            = Inl (HTTPException 401 ''Access denied, check token validity'')"
    by (simp add: verify_token_def oath2_schema_def cfg0_def)
  have v3: "verify_token cfg0 2801 (Some ann_token) shop
            = Inl (HTTPException 401 ''Access denied, check token validity'')"
    by (simp add: verify_token_def oath2_schema_def ann_token_def get_token_def
          jwt_encode_def access_time_def expired_claims) (simp add: cfg0_def expired_claims)
  have v4: "verify_token cfg0 1200 (Some (get_token cfg0 1000 9 (access_time cfg0))) shop
            = Inl (HTTPException 401 ''Invalid access'')"
    by (simp add: verify_token_def oath2_schema_def get_token_def jwt_encode_def access_time_def
          issued_claims dict_get_def claim_of_def nine first_by_id_def fits_integer_def
          cfg0_def shop_def zoe_def ann_def bob_def)
  note g = authentication_gate [THEN conjunct2, THEN conjunct1, THEN mp]
  have r1: "route cfg0 1200 None (GetOrder 1) shop = Inl (HTTPException 401 ''Not authenticated'')"
    using g [of "GetOrder 1" _ _ cfg0 1200 None shop] v1 by simp
  have r2: "route cfg0 1200 (Some (JWT ''other'' ''HS256'' (JObj [(''sub'', JStr ''2''), (''exp'', JInt 2800)])))
       (CancelOrder 1) shop =
     Inl (HTTPException 401 ''Access denied, check token validity'')"
    using g [of "CancelOrder 1" _ _ cfg0 1200 _ shop] v2 by simp
  have r3: "route cfg0 2801 (Some ann_token) (AddItem 1 calabresa) shop =
     Inl (HTTPException 401 ''Access denied, check token validity'')"
    using g [of "AddItem 1 calabresa" _ _ cfg0 2801 _ shop] v3 by simp
  have r4: "route cfg0 1200 (Some (get_token cfg0 1000 9 (access_time cfg0))) ListOrders shop =
     Inl (HTTPException 401 ''Invalid access'')"
    using g [of ListOrders _ _ cfg0 1200 _ shop] v4 by simp
  have r5: "route cfg0 1200 None (Signup dan_schema 15) shop = Inl (HTTPException 401 ''Not authenticated'') \<and>
     store_after cfg0 1200 None (Signup dan_schema 15) shop = shop"
    using g [of "Signup dan_schema 15" dan_schema 15 cfg0 1200 None shop] v1 by simp
  have r6: "\<exists>d. verify_token cfg0 2801 (Some ann_token) shop = Inl (HTTPException 401 d)"
    using authentication_gate [THEN conjunct1, THEN mp, OF u3] .
  show ?thesis using r1 r2 r3 r4 r5 r6 u1 u2 u3 u4 by simp
qed

section \<open>Access and refresh tokens\<close>

lemma order_route_not_401:
  assumes "verify_token cfg now a s = Inr user" and "order_request req"
  shows "route cfg now a req s \<noteq> Inl (HTTPException 401 d)"
  using assms(2)
  by (cases req)
     (auto simp: depends_ok [OF assms(1)] orders_route_def order_route_def list_orders_def
        list_user_orders_def get_order_def add_iten_order_def remove_iten_order_def
        cancel_order_def complete_order_def not_authorized_def Let_def first_by_id_def
        split: option.splits if_splits sum.splits)

lemma login_tokens:
  assumes "login cfg t0 login_schema s = Inr (Tokens access refresh, s')"
  shows "\<exists>user. find (\<lambda>u. u_email u = ls_email login_schema) (users s) = Some user \<and>
           access = get_token cfg t0 (u_id user) (access_time cfg) \<and>
           refresh = Some (get_token cfg t0 (u_id user) refresh_time) \<and> s' = s"
  using assms
  by (auto simp: login_def authenticate_user_def Let_def split: option.splits if_splits sum.splits)

lemma find_by_own_id:
  "find P xs = Some x \<Longrightarrow> \<exists>y. find (\<lambda>u. key u = key x) xs = Some y \<and> key y = key x"
  by (induction xs) (auto split: if_splits)

lemma find_in_range:
  "find P xs = Some x \<Longrightarrow> list_all Q xs \<Longrightarrow> Q x"
  by (induction xs) (auto split: if_splits)

text \<open>
  Claim C10 says that \<^verbatim>\<open>verify_token\<close> accepts any token signed with the configured
  secret and algorithm whose expiry has not passed and whose subject matches a stored
  user. \<^verbatim>\<open>jwt.decode\<close> validates more claims than the expiry: a token signed with the
  configured key and algorithm, expiring at 2800 and naming the stored user 2, is refused
  with 401 at time 1200 when it also carries a \<^verbatim>\<open>nbf\<close> claim in the future or an \<^verbatim>\<open>aud\<close>
  claim.
\<close>

theorem any_signed_token_counterexample:
  "find (\<lambda>u. u_id u = 2) (users shop) = Some ann \<and> parse_int ''2'' = Some 2 \<and>
   verify_token cfg0 1200
     (Some (JWT (SECRET_KEY cfg0) (ALGORITHM cfg0)
        (JObj [(''sub'', JStr ''2''), (''exp'', JInt 2800), (''nbf'', JInt 2000)]))) shop =
     Inl (HTTPException 401 ''Access denied, check token validity'') \<and>
   verify_token cfg0 1200
     (Some (JWT (SECRET_KEY cfg0) (ALGORITHM cfg0)
        (JObj [(''sub'', JStr ''2''), (''exp'', JInt 2800), (''aud'', JStr ''shop'')]))) shop =
     Inl (HTTPException 401 ''Access denied, check token validity'')"
proof -
  have two: "parse_int ''2'' = Some 2"
    using parse_int_py_str [of 2] by (simp add: fits_integer_def py_str_def str_nat.simps digit_char_def)
  show ?thesis
    by (simp add: two verify_token_def oath2_schema_def validate_claims_def validate_iat_def
          validate_nbf_def validate_exp_def validate_aud_def validate_sub_def validate_jti_def
          validate_at_hash_def claim_of_def int_claim_def shop_def zoe_def ann_def bob_def)
qed

text \<open>
  Claim C10, amended. \<^verbatim>\<open>verify_token\<close> accepts every token signed with the configured
  key and algorithm whose payload holds the two claims \<^verbatim>\<open>get_token\<close> writes, a text
  subject that reads as the id of a stored user and an integer expiry that has not
  passed; it reads no claim that tells an access token from a refresh token. So, on a
  store whose user ids lie in the range of the integer column, the refresh token of a
  login resolves to a user with the login's id for seven days, during which every route
  depending on \<^verbatim>\<open>verify_token\<close> runs its body with that user and no order route answers
  401; and the access token of the login is accepted by \<^verbatim>\<open>/auth/refresh\<close>, which issues
  a new access token, for as long as it is valid.
\<close>

theorem token_kinds_interchangeable:
  "(find (\<lambda>u. u_id u = n) (users s) = Some user \<and> parse_int sub = Some n \<and> now \<le> e \<longrightarrow>
      verify_token cfg now
        (Some (JWT (SECRET_KEY cfg) (ALGORITHM cfg) (JObj [(''sub'', JStr sub), (''exp'', JInt e)]))) s
        = Inr user) \<and>
   (login cfg t0 login_schema s = Inr (Tokens access (Some refresh), s') \<and>
    list_all (\<lambda>u. fits_integer (u_id u)) (users s) \<longrightarrow>
      (\<exists>principal.
         find (\<lambda>u. u_email u = ls_email login_schema) (users s) \<noteq> None \<and>
         map_option u_id (find (\<lambda>u. u_email u = ls_email login_schema) (users s)) = Some (u_id principal) \<and>
         (now \<le> t0 + 7 * 86400 \<longrightarrow>
            verify_token cfg now (Some refresh) s = Inr principal \<and>
            (\<forall>body. depends_verify_token cfg now (Some refresh) s body = body principal) \<and>
            (\<forall>req d. order_request req \<longrightarrow>
               route cfg now (Some refresh) req s \<noteq> Inl (HTTPException 401 d))) \<and>
         (now \<le> t0 + 60 * ACCESS_TOKEN_EXPIRE_MINUTES cfg \<longrightarrow>
            verify_token cfg now (Some access) s = Inr principal \<and>
            route cfg now (Some access) Refresh s =
              Inr (Tokens (get_token cfg now (u_id principal) (access_time cfg)) None, s))))"
proof (intro conjI impI)
  assume "find (\<lambda>u. u_id u = n) (users s) = Some user \<and> parse_int sub = Some n \<and> now \<le> e"
  then show "verify_token cfg now
        (Some (JWT (SECRET_KEY cfg) (ALGORITHM cfg) (JObj [(''sub'', JStr sub), (''exp'', JInt e)]))) s
        = Inr user"
    using verify_token_sub_exp by blast
next
  assume h: "login cfg t0 login_schema s = Inr (Tokens access (Some refresh), s') \<and>
    list_all (\<lambda>u. fits_integer (u_id u)) (users s)"
  then have lg: "login cfg t0 login_schema s = Inr (Tokens access (Some refresh), s')"
    and range: "list_all (\<lambda>u. fits_integer (u_id u)) (users s)" by simp_all
  from login_tokens [OF lg] obtain user where
    user: "find (\<lambda>u. u_email u = ls_email login_schema) (users s) = Some user" and
    access: "access = get_token cfg t0 (u_id user) (access_time cfg)" and
    refresh: "refresh = get_token cfg t0 (u_id user) refresh_time"
    by auto
  have fits: "fits_integer (u_id user)" using find_in_range [OF user range] .
  from find_by_own_id [OF user, where key = u_id] obtain principal where
    p: "find (\<lambda>u. u_id u = u_id user) (users s) = Some principal" "u_id principal = u_id user"
    by auto
  have r: "now \<le> t0 + 7 * 86400 \<Longrightarrow> verify_token cfg now (Some refresh) s = Inr principal"
    unfolding refresh by (rule verify_token_issued [OF p(1) fits]) (simp add: refresh_time_def)
  have a: "now \<le> t0 + 60 * ACCESS_TOKEN_EXPIRE_MINUTES cfg \<Longrightarrow>
           verify_token cfg now (Some access) s = Inr principal"
    unfolding access by (rule verify_token_issued [OF p(1) fits]) (simp add: access_time_def)
  show "\<exists>principal.
         find (\<lambda>u. u_email u = ls_email login_schema) (users s) \<noteq> None \<and>
         map_option u_id (find (\<lambda>u. u_email u = ls_email login_schema) (users s)) = Some (u_id principal) \<and>
         (now \<le> t0 + 7 * 86400 \<longrightarrow>
            verify_token cfg now (Some refresh) s = Inr principal \<and>
            (\<forall>body. depends_verify_token cfg now (Some refresh) s body = body principal) \<and>
            (\<forall>req d. order_request req \<longrightarrow>
               route cfg now (Some refresh) req s \<noteq> Inl (HTTPException 401 d))) \<and>
         (now \<le> t0 + 60 * ACCESS_TOKEN_EXPIRE_MINUTES cfg \<longrightarrow>
            verify_token cfg now (Some access) s = Inr principal \<and>
            route cfg now (Some access) Refresh s =
              Inr (Tokens (get_token cfg now (u_id principal) (access_time cfg)) None, s))"
  proof (intro exI [of _ principal] conjI impI allI)
    show "find (\<lambda>u. u_email u = ls_email login_schema) (users s) \<noteq> None" using user by simp
    show "map_option u_id (find (\<lambda>u. u_email u = ls_email login_schema) (users s)) = Some (u_id principal)"
      using user p(2) by simp
  next
    assume t: "now \<le> t0 + 7 * 86400"
    show "verify_token cfg now (Some refresh) s = Inr principal" by (rule r [OF t])
  next
    fix body :: "User \<Rightarrow> error + (response \<times> db)"
    assume t: "now \<le> t0 + 7 * 86400"
    show "depends_verify_token cfg now (Some refresh) s body = body principal"
      by (rule depends_ok [OF r [OF t]])
  next
    fix req d
    assume t: "now \<le> t0 + 7 * 86400" and "order_request req"
    then show "route cfg now (Some refresh) req s \<noteq> Inl (HTTPException 401 d)"
      using order_route_not_401 [OF r [OF t]] by blast
  next
    assume t: "now \<le> t0 + 60 * ACCESS_TOKEN_EXPIRE_MINUTES cfg"
    show "verify_token cfg now (Some access) s = Inr principal" by (rule a [OF t])
    show "route cfg now (Some access) Refresh s =
              Inr (Tokens (get_token cfg now (u_id principal) (access_time cfg)) None, s)"
      by (simp add: depends_ok [OF a [OF t]] user_refresh_token_def)
  qed
qed

text \<open>
  On the sample store: ann logs in at time 1000; at time 600000 her access token has
  expired and her refresh token still reads her order; at time 1200 her access token
  obtains a new access token from \<^verbatim>\<open>/auth/refresh\<close>; a token with her subject that
  expires at 1200 is still accepted at 1200.
\<close>

lemma shop_login:
  "login cfg0 1000 ann_login shop = Inr (Tokens ann_token (Some ann_refresh), shop)"
  by (simp add: login_def authenticate_user_def argon2_context_verify_def Let_def ann_login_def ann_token_def
        ann_refresh_def shop_def zoe_def ann_def bob_def)

lemma shop_range: "list_all (\<lambda>u. fits_integer (u_id u)) (users shop)"
  by (simp add: shop_def zoe_def ann_def bob_def fits_integer_def)

lemma shop_ann_refresh: "verify_token cfg0 600000 (Some ann_refresh) shop = Inr ann"
  unfolding ann_refresh_def
  by (rule verify_token_issued) (simp_all add: shop_def zoe_def ann_def refresh_time_def fits_integer_def)

theorem token_kinds_interchangeable_witness:
  "login cfg0 1000 ann_login shop = Inr (Tokens ann_token (Some ann_refresh), shop) \<and>
   list_all (\<lambda>u. fits_integer (u_id u)) (users shop) \<and>
   verify_token cfg0 600000 (Some ann_token) shop =
     Inl (HTTPException 401 ''Access denied, check token validity'') \<and>
   verify_token cfg0 600000 (Some ann_refresh) shop = Inr ann \<and>
   route cfg0 600000 (Some ann_refresh) (GetOrder 1) shop = Inr (OrderDetail 1 ann_order, shop) \<and>
   route cfg0 1200 (Some ann_token) Refresh shop =
     Inr (Tokens (get_token cfg0 1200 2 (access_time cfg0)) None, shop) \<and>
   verify_token cfg0 1200
     (Some (JWT (SECRET_KEY cfg0) (ALGORITHM cfg0) (JObj [(''sub'', JStr (py_str 2)), (''exp'', JInt 1200)])))
     shop = Inr ann"
proof -
  have both: "login cfg0 1000 ann_login shop = Inr (Tokens ann_token (Some ann_refresh), shop) \<and>
    list_all (\<lambda>u. fits_integer (u_id u)) (users shop)"
    using shop_login shop_range by simp
  from token_kinds_interchangeable [THEN conjunct2, THEN mp, OF both, of 600000]
  obtain p1 where
    p1: "verify_token cfg0 600000 (Some ann_refresh) shop = Inr p1"
        "\<forall>body. depends_verify_token cfg0 600000 (Some ann_refresh) shop body = body p1"
    by auto
  from p1(1) shop_ann_refresh have "p1 = ann" by simp
  with p1(2) have 1: "route cfg0 600000 (Some ann_refresh) (GetOrder 1) shop = get_order 1 ann shop"
    by simp
  have 2: "get_order 1 ann shop = Inr (OrderDetail 1 ann_order, shop)"
    by (simp add: get_order_def first_by_id_def itens_def truthy_def shop_def ann_def
          ann_order_def ann_item_def)
  from token_kinds_interchangeable [THEN conjunct2, THEN mp, OF both, of 1200]
  obtain p2 where
    p2: "verify_token cfg0 1200 (Some ann_token) shop = Inr p2"
        "route cfg0 1200 (Some ann_token) Refresh shop =
           Inr (Tokens (get_token cfg0 1200 (u_id p2) (access_time cfg0)) None, shop)"
    by (auto simp: cfg0_def)
  from p2(1) shop_ann have "p2 = ann" by simp
  with p2(2) have 3: "route cfg0 1200 (Some ann_token) Refresh shop =
     Inr (Tokens (get_token cfg0 1200 2 (access_time cfg0)) None, shop)"
    by (simp add: ann_def)
  have 4: "verify_token cfg0 600000 (Some ann_token) shop =
     Inl (HTTPException 401 ''Access denied, check token validity'')"
    by (simp add: verify_token_def oath2_schema_def cfg0_def ann_token_def get_token_def
          jwt_encode_def access_time_def validate_claims_def validate_iat_def
          validate_nbf_def validate_exp_def validate_aud_def validate_sub_def validate_jti_def
          validate_at_hash_def claim_of_def int_claim_def)
  have two: "parse_int (py_str 2) = Some 2" by (rule parse_int_py_str) (simp add: fits_integer_def)
  have found: "find (\<lambda>u. u_id u = 2) (users shop) = Some ann"
    by (simp add: shop_def zoe_def ann_def)
  have 5: "verify_token cfg0 1200
     (Some (JWT (SECRET_KEY cfg0) (ALGORITHM cfg0) (JObj [(''sub'', JStr (py_str 2)), (''exp'', JInt 1200)])))
     shop = Inr ann"
    using token_kinds_interchangeable [THEN conjunct1, THEN mp, of 2 shop ann "py_str 2" 1200 1200 cfg0]
      two found by simp
  show ?thesis using 1 2 3 4 5 shop_login shop_range shop_ann_refresh by simp
qed

end
